theory Spec2Isabelle
  imports Complex_Main "HOL-Library.Word"
begin

section \<open>JavaScript values and the external libraries\<close>

text \<open>
  The values that \<^verbatim>\<open>JSON.parse\<close> can return. A JavaScript value that may also be
  \<^verbatim>\<open>undefined\<close> is a \<open>json option\<close>, with \<open>None\<close> for \<^verbatim>\<open>undefined\<close>.
\<close>

datatype json =
    JNull
  | JBool bool
  | JNum rat
  | JStr string
  | JArr "json list"
  | JObj "(string \<times> json) list"

type_synonym jsval = "json option"

text \<open>
  The exceptions that the program can meet: three failures of \<^verbatim>\<open>fs.readFile\<close>, the
  \<^verbatim>\<open>SyntaxError\<close> of \<^verbatim>\<open>JSON.parse\<close> and the \<^verbatim>\<open>TypeError\<close> of the language.
  \<open>Unmodelled\<close> is not an exception of the program: it is the result of the model on
  an input whose outcome depends on what the model leaves out (a path that leaves
  the working directory, a method that starts while \<^verbatim>\<open>init\<close> is still writing, an
  object installed as the prototype of \<^verbatim>\<open>headFiles\<close>). The model says nothing about
  the program there.
\<close>

datatype error = ENOENT | EISDIR | ENOTDIR | SyntaxError | TypeError | Unmodelled

text \<open>One part of the result of \<^verbatim>\<open>diffLines\<close>.\<close>

record change =
  added :: bool
  removed :: bool
  text_value :: string

text \<open>
  The functions of the libraries that the program imports (\<^verbatim>\<open>crypto\<close>, \<^verbatim>\<open>JSON\<close>,
  \<^verbatim>\<open>diff\<close>) and the number formatting of the language are parameters of the model:
  \<open>sha1\<close> is the SHA-1 digest of the UTF-8 encoding of a text, \<open>JSON_parse\<close> returns
  \<open>None\<close> where \<^verbatim>\<open>JSON.parse\<close> throws.
\<close>

record ext =
  sha1 :: "string \<Rightarrow> 160 word"
  JSON_stringify :: "json \<Rightarrow> string"
  JSON_parse :: "string \<Rightarrow> json option"
  diffLines :: "string \<Rightarrow> string \<Rightarrow> change list"
  Number_toString :: "rat \<Rightarrow> string"

text \<open>Truthiness, as \<^verbatim>\<open>if (v)\<close>, \<^verbatim>\<open>while (v)\<close> and \<^verbatim>\<open>!v\<close> decide it.\<close>

fun truthy :: "jsval \<Rightarrow> bool" where
  "truthy None = False"
| "truthy (Some JNull) = False"
| "truthy (Some (JBool b)) = b"
| "truthy (Some (JNum n)) = (n \<noteq> 0)"
| "truthy (Some (JStr s)) = (s \<noteq> [])"
| "truthy (Some (JArr xs)) = True"
| "truthy (Some (JObj kvs)) = True"

text \<open>
  Reading the property \<^verbatim>\<open>v.k\<close>, for the keys the program reads (\<^verbatim>\<open>files\<close>,
  \<^verbatim>\<open>parent\<close>, \<^verbatim>\<open>timeStamp\<close>, \<^verbatim>\<open>message\<close>, \<^verbatim>\<open>path\<close>, \<^verbatim>\<open>hash\<close>): a
  \<^verbatim>\<open>TypeError\<close> on \<^verbatim>\<open>null\<close> and \<^verbatim>\<open>undefined\<close>, the member of an object, and
  \<^verbatim>\<open>undefined\<close> on every other value.
\<close>

fun js_get :: "jsval \<Rightarrow> string \<Rightarrow> error + jsval" where
  "js_get None k = Inl TypeError"
| "js_get (Some JNull) k = Inl TypeError"
| "js_get (Some (JObj kvs)) k = Inr (map_of kvs k)"
| "js_get (Some v) k = Inr None"

text \<open>
  Strict equality \<^verbatim>\<open>===\<close> of two values that come from different calls of
  \<^verbatim>\<open>JSON.parse\<close>: primitives by value, arrays and objects never (they are distinct
  references).
\<close>

fun strict_eq :: "jsval \<Rightarrow> jsval \<Rightarrow> bool" where
  "strict_eq None None = True"
| "strict_eq (Some JNull) (Some JNull) = True"
| "strict_eq (Some (JBool a)) (Some (JBool b)) = (a = b)"
| "strict_eq (Some (JNum a)) (Some (JNum b)) = (a = b)"
| "strict_eq (Some (JStr a)) (Some (JStr b)) = (a = b)"
| "strict_eq a b = False"

text \<open>String conversion of a value used as a property key (\<^verbatim>\<open>acc[file.path]\<close>).\<close>

fun join_comma :: "string list \<Rightarrow> string" where
  "join_comma [] = []"
| "join_comma [s] = s"
| "join_comma (s # t # ss) = s @ '','' @ join_comma (t # ss)"

fun js_toString :: "ext \<Rightarrow> jsval \<Rightarrow> string" where
  "js_toString E None = ''undefined''"
| "js_toString E (Some JNull) = ''null''"
| "js_toString E (Some (JBool b)) = (if b then ''true'' else ''false'')"
| "js_toString E (Some (JNum n)) = Number_toString E n"
| "js_toString E (Some (JStr s)) = s"
| "js_toString E (Some (JArr xs)) =
     join_comma (map (\<lambda>x. if x = JNull then [] else js_toString E (Some x)) xs)"
| "js_toString E (Some (JObj kvs)) = ''[object Object]''"

text \<open>\<^verbatim>\<open>a.push(x)\<close>: only an array has the method.\<close>

fun js_push :: "json \<Rightarrow> json \<Rightarrow> error + json" where
  "js_push (JArr xs) x = Inr (JArr (xs @ [x]))"
| "js_push v x = Inl TypeError"

text \<open>\<^verbatim>\<open>a.find(p)\<close> on the elements of an array: the first element that satisfies
  \<open>p\<close>, \<^verbatim>\<open>undefined\<close> when there is none; an exception of \<open>p\<close> ends the search.\<close>

fun js_find :: "(json \<Rightarrow> error + bool) \<Rightarrow> json list \<Rightarrow> error + jsval" where
  "js_find p [] = Inr None"
| "js_find p (x # xs) =
     (case p x of
        Inl e \<Rightarrow> Inl e
      | Inr b \<Rightarrow> if b then Inr (Some x) else js_find p xs)"

text \<open>\<^verbatim>\<open>JSON.parse(text)\<close>, and \<^verbatim>\<open>JSON.parse(x)\<close> for an \<open>x\<close> that is a text or
  \<^verbatim>\<open>null\<close> (which the call converts to the text \<^verbatim>\<open>"null"\<close>).\<close>

definition parse_text :: "ext \<Rightarrow> string \<Rightarrow> error + json" where
  "parse_text E s = (case JSON_parse E s of None \<Rightarrow> Inl SyntaxError | Some v \<Rightarrow> Inr v)"

definition parse_nullable :: "ext \<Rightarrow> string option \<Rightarrow> error + json" where
  "parse_nullable E x = parse_text E (case x of None \<Rightarrow> ''null'' | Some s \<Rightarrow> s)"

section \<open>The repository on disk\<close>

text \<open>
  The files the program reads and writes: the objects under \<^verbatim>\<open>.groot/objects\<close> by
  name, \<^verbatim>\<open>.groot/HEAD\<close>, \<^verbatim>\<open>.groot/index\<close>, \<^verbatim>\<open>.groot/stash\<close> (\<open>None\<close> when
  the file does not exist) and every other file or directory below the working
  directory, by its path (\<^verbatim>\<open>a.txt\<close>, \<^verbatim>\<open>src/b.txt\<close>). An object name is a plain file
  name; the empty name is the directory \<^verbatim>\<open>objects\<close> itself. The directories
  \<^verbatim>\<open>.groot\<close> and \<^verbatim>\<open>.groot/objects\<close> exist, and a write never fails. The field
  \<open>trace\<close> records, in order, every file written and every line printed.

  A path names one file whatever the method that reads it: \<open>classify\<close> sends the
  segments of a path to the file they name, so that \<^verbatim>\<open>.groot/index\<close> read by \<^verbatim>\<open>add\<close>
  is the index that \<^verbatim>\<open>updateStagingArea\<close> writes. \<open>Directory\<close> is a directory that
  exists, \<open>Beyond f\<close> a path that continues below the file \<open>f\<close>. Two paths
  that \<open>classify\<close> sends to different files name different files: links between
  files, and a file system that ignores the case of letters, are outside the model.
\<close>

datatype fpath =
    ObjectFile string
  | HeadFile
  | IndexFile
  | StashFile
  | WorkFile string
  | Directory
  | Beyond fpath

datatype node = File string | Dir

fun split_slash :: "string \<Rightarrow> string list" where
  "split_slash [] = [[]]"
| "split_slash (c # cs) =
     (if c = CHR ''/'' then [] # split_slash cs
      else (case split_slash cs of [] \<Rightarrow> [[c]] | s # ss \<Rightarrow> (c # s) # ss))"

fun join_slash :: "string list \<Rightarrow> string" where
  "join_slash [] = []"
| "join_slash [s] = s"
| "join_slash (s # t # ss) = s @ ''/'' @ join_slash (t # ss)"

definition classify :: "string list \<Rightarrow> fpath" where
  "classify segs =
     (case segs of
        [] \<Rightarrow> Directory
      | d # rest \<Rightarrow>
          if d \<noteq> ''.groot'' then WorkFile (join_slash segs)
          else
            (case rest of
               [] \<Rightarrow> Directory
             | x # below \<Rightarrow>
                 if x = ''HEAD'' then (if below = [] then HeadFile else Beyond HeadFile)
                 else if x = ''index'' then (if below = [] then IndexFile else Beyond IndexFile)
                 else if x = ''stash'' then (if below = [] then StashFile else Beyond StashFile)
                 else if x = ''objects'' then
                   (case below of
                      [] \<Rightarrow> Directory
                    | n # deeper \<Rightarrow> if deeper = [] then ObjectFile n else Beyond (ObjectFile n))
                 else WorkFile (join_slash segs)))"

datatype line =
    CommitCreated string
  | LogEntry string jsval jsval
  | Undefined
  | CommitNotFound
  | ChangesInLastCommit
  | FileHeader jsval
  | Content string
  | DiffHeader
  | Added string
  | Removed string
  | Unchanged string
  | NewFiles
  | FirstCommit
  | ToBeCommitted
  | StagedModified jsval
  | NotStaged
  | Modified string
  | UntrackedHeader
  | NewFile string
  | Stashed

datatype event = Write fpath string | Print line

record world =
  objectsDir :: "string \<rightharpoonup> string"
  headFile :: "string option"
  indexFile :: "string option"
  stashFile :: "string option"
  workTree :: "string \<rightharpoonup> node"
  trace :: "event list"

type_synonym 'a io = "world \<Rightarrow> (error + 'a) \<times> world"

definition lookup_file :: "string option \<Rightarrow> error + string" where
  "lookup_file c = (case c of None \<Rightarrow> Inl ENOENT | Some d \<Rightarrow> Inr d)"

text \<open>A path of the working tree passes through a file when one of its proper
  prefixes is a file.\<close>

definition through_file :: "world \<Rightarrow> string \<Rightarrow> bool" where
  "through_file w p =
     (let segs = split_slash p
      in list_ex (\<lambda>k. case workTree w (join_slash (take k segs)) of
                         Some (File d) \<Rightarrow> True
                       | _ \<Rightarrow> False)
           [1..<length segs])"

fun readFile :: "fpath \<Rightarrow> world \<Rightarrow> error + string" where
  "readFile (ObjectFile n) w = (if n = [] then Inl EISDIR else lookup_file (objectsDir w n))"
| "readFile HeadFile w = lookup_file (headFile w)"
| "readFile IndexFile w = lookup_file (indexFile w)"
| "readFile StashFile w = lookup_file (stashFile w)"
| "readFile (WorkFile p) w =
     (case workTree w p of
        Some (File d) \<Rightarrow> Inr d
      | Some Dir \<Rightarrow> Inl EISDIR
      | None \<Rightarrow> if through_file w p then Inl ENOTDIR else Inl ENOENT)"
| "readFile Directory w = Inl EISDIR"
| "readFile (Beyond f) w = (case readFile f w of Inl e \<Rightarrow> Inl ENOENT | Inr d \<Rightarrow> Inl ENOTDIR)"

text \<open>
  \<^verbatim>\<open>fs.readFile(p)\<close> for a path \<open>p\<close> that the user or \<^verbatim>\<open>getAllFiles\<close> gives. The
  segments \<^verbatim>\<open>.\<close> and the empty ones name no step; a path that ends with one of
  them names a directory. An absolute path and a path with a segment \<^verbatim>\<open>..\<close> leave
  the working directory, or may: they are outside the model.
\<close>

definition readPath :: "string \<Rightarrow> world \<Rightarrow> error + string" where
  "readPath p w =
     (let segs = split_slash p
      in if p = [] then Inl ENOENT
         else if hd p = CHR ''/'' \<or> ''..'' \<in> set segs then Inl Unmodelled
         else
           (case readFile (classify (filter (\<lambda>s. s \<noteq> [] \<and> s \<noteq> ''.'') segs)) w of
              Inl e \<Rightarrow> Inl e
            | Inr d \<Rightarrow> if last segs = [] \<or> last segs = ''.'' then Inl ENOTDIR else Inr d))"

fun store :: "fpath \<Rightarrow> string \<Rightarrow> world \<Rightarrow> world" where
  "store (ObjectFile n) d w = w\<lparr>objectsDir := (objectsDir w)(n \<mapsto> d)\<rparr>"
| "store HeadFile d w = w\<lparr>headFile := Some d\<rparr>"
| "store IndexFile d w = w\<lparr>indexFile := Some d\<rparr>"
| "store StashFile d w = w\<lparr>stashFile := Some d\<rparr>"
| "store (WorkFile p) d w = w\<lparr>workTree := (workTree w)(p \<mapsto> File d)\<rparr>"
| "store Directory d w = w"
| "store (Beyond f) d w = w"

definition writeFile :: "fpath \<Rightarrow> string \<Rightarrow> world \<Rightarrow> world" where
  "writeFile f d w = (store f d w)\<lparr>trace := trace (store f d w) @ [Write f d]\<rparr>"

definition console_log :: "line \<Rightarrow> world \<Rightarrow> world" where
  "console_log l w = w\<lparr>trace := trace w @ [Print l]\<rparr>"

section \<open>The class GRoot\<close>

subsection \<open>init\<close>

text \<open>
  \<^verbatim>\<open>init\<close> writes each of the three files with the flag \<^verbatim>\<open>wx\<close>, which fails when the
  file exists; the first failure ends the method.
\<close>

definition init :: "ext \<Rightarrow> world \<Rightarrow> world" where
  "init E w =
     (if headFile w \<noteq> None then w
      else let w1 = writeFile HeadFile [] w in
        if indexFile w1 \<noteq> None then w1
        else let w2 = writeFile IndexFile (JSON_stringify E (JArr [])) w1 in
          if stashFile w2 \<noteq> None then w2
          else writeFile StashFile (JSON_stringify E (JArr [])) w2)"

subsection \<open>hashObject\<close>

text \<open>The digest in hexadecimal: forty digits, most significant first.\<close>

fun hex_digits :: "nat \<Rightarrow> nat \<Rightarrow> string" where
  "hex_digits 0 n = []"
| "hex_digits (Suc k) n = hex_digits k (n div 16) @ [''0123456789abcdef'' ! (n mod 16)]"

definition hashObject :: "ext \<Rightarrow> string \<Rightarrow> string" where
  "hashObject E content = hex_digits 40 (unat (sha1 E content))"

subsection \<open>add and updateStagingArea\<close>

definition index_entry :: "string \<Rightarrow> string \<Rightarrow> json" where
  "index_entry filePath fileHash = JObj [(''path'', JStr filePath), (''hash'', JStr fileHash)]"

definition updateStagingArea :: "ext \<Rightarrow> string \<Rightarrow> string \<Rightarrow> unit io" where
  "updateStagingArea E filePath fileHash w =
     (case readFile IndexFile w of
        Inl e \<Rightarrow> (Inl e, w)
      | Inr txt \<Rightarrow>
          (case parse_text E txt of
             Inl e \<Rightarrow> (Inl e, w)
           | Inr index \<Rightarrow>
               (case js_push index (index_entry filePath fileHash) of
                  Inl e \<Rightarrow> (Inl e, w)
                | Inr index' \<Rightarrow> (Inr (), writeFile IndexFile (JSON_stringify E index') w))))"

definition add :: "ext \<Rightarrow> string \<Rightarrow> unit io" where
  "add E fileToBeAdded w =
     (case readPath fileToBeAdded w of
        Inl e \<Rightarrow> (Inl e, w)
      | Inr fileData \<Rightarrow>
          (let fileHash = hashObject E fileData;
               w1 = writeFile (ObjectFile fileHash) fileData w
           in updateStagingArea E fileToBeAdded fileHash w1))"

text \<open>\<^verbatim>\<open>addAll\<close> adds the files that \<^verbatim>\<open>getAllFiles\<close> lists (the traversal and the
  ignore rules are outside the model); the first exception ends the loop.\<close>

fun addAll :: "ext \<Rightarrow> string list \<Rightarrow> unit io" where
  "addAll E [] w = (Inr (), w)"
| "addAll E (f # fs) w =
     (case add E f w of
        (Inl e, w') \<Rightarrow> (Inl e, w')
      | (Inr u, w') \<Rightarrow> addAll E fs w')"

subsection \<open>commit and getCurrentHead\<close>

text \<open>\<^verbatim>\<open>getCurrentHead\<close> catches the failure of the read and then returns
  \<^verbatim>\<open>undefined\<close>.\<close>

definition getCurrentHead :: "world \<Rightarrow> string option" where
  "getCurrentHead w = (case readFile HeadFile w of Inl e \<Rightarrow> None | Inr h \<Rightarrow> Some h)"

text \<open>
  The record \<^verbatim>\<open>commitData\<close>. It is only ever passed to \<^verbatim>\<open>JSON.stringify\<close>, which
  leaves out a key whose value is \<^verbatim>\<open>undefined\<close>.
\<close>

definition commitData :: "string \<Rightarrow> string \<Rightarrow> json \<Rightarrow> string option \<Rightarrow> json" where
  "commitData now message index parentCommit =
     JObj ([(''timeStamp'', JStr now), (''message'', JStr message), (''files'', index)]
           @ (case parentCommit of None \<Rightarrow> [] | Some h \<Rightarrow> [(''parent'', JStr h)]))"

definition commit :: "ext \<Rightarrow> string \<Rightarrow> string \<Rightarrow> unit io" where
  "commit E now message w =
     (case readFile IndexFile w of
        Inl e \<Rightarrow> (Inl e, w)
      | Inr txt \<Rightarrow>
          (case parse_text E txt of
             Inl e \<Rightarrow> (Inl e, w)
           | Inr index \<Rightarrow>
               (let parentCommit = getCurrentHead w;
                    data = JSON_stringify E (commitData now message index parentCommit);
                    commitHash = hashObject E data;
                    w1 = writeFile (ObjectFile commitHash) data w;
                    w2 = writeFile HeadFile commitHash w1;
                    w3 = writeFile IndexFile (JSON_stringify E (JArr [])) w2
                in (Inr (), console_log (CommitCreated commitHash) w3))))"

subsection \<open>stash\<close>

definition stash_entry :: "string \<Rightarrow> json \<Rightarrow> json" where
  "stash_entry now index = JObj [(''timeStamp'', JStr now), (''files'', index)]"

definition stash :: "ext \<Rightarrow> string \<Rightarrow> unit io" where
  "stash E now w =
     (case readFile IndexFile w of
        Inl e \<Rightarrow> (Inl e, w)
      | Inr txt \<Rightarrow>
          (case parse_text E txt of
             Inl e \<Rightarrow> (Inl e, w)
           | Inr index \<Rightarrow>
               (case readFile StashFile w of
                  Inl e \<Rightarrow> (Inl e, w)
                | Inr stxt \<Rightarrow>
                    (case parse_text E stxt of
                       Inl e \<Rightarrow> (Inl e, w)
                     | Inr st \<Rightarrow>
                         (case js_push st (stash_entry now index) of
                            Inl e \<Rightarrow> (Inl e, w)
                          | Inr st' \<Rightarrow>
                              (let w1 = writeFile StashFile (JSON_stringify E st') w;
                                   w2 = writeFile IndexFile (JSON_stringify E (JArr [])) w1
                               in (Inr (), console_log Stashed w2)))))))"

subsection \<open>log\<close>

text \<open>
  One round of the \<^verbatim>\<open>while\<close> loop of \<^verbatim>\<open>log\<close>, from the test of the condition on:
  \<open>Inl\<close> when the method ends (the loop is left, or an exception is not caught),
  \<open>Inr\<close> with the next value of \<^verbatim>\<open>currentCommitHash\<close> otherwise. \<^verbatim>\<open>path.join\<close>
  throws a \<^verbatim>\<open>TypeError\<close> when its argument is not a string.
\<close>

definition log_step :: "ext \<Rightarrow> jsval \<Rightarrow> world \<Rightarrow> ((error + unit) \<times> world) + (jsval \<times> world)" where
  "log_step E currentCommitHash w =
     (if \<not> truthy currentCommitHash then Inl (Inr (), w)
      else case currentCommitHash of
        Some (JStr h) \<Rightarrow>
          (case readFile (ObjectFile h) w of
             Inl e \<Rightarrow> Inl (Inl e, w)
           | Inr txt \<Rightarrow>
               (case parse_text E txt of
                  Inl e \<Rightarrow> Inl (Inl e, w)
                | Inr cd \<Rightarrow>
                    (case js_get (Some cd) ''timeStamp'' of
                       Inl e \<Rightarrow> Inl (Inl e, w)
                     | Inr ts \<Rightarrow>
                         (case js_get (Some cd) ''message'' of
                            Inl e \<Rightarrow> Inl (Inl e, w)
                          | Inr msg \<Rightarrow>
                              (let w1 = console_log (LogEntry h ts msg) w
                               in case js_get (Some cd) ''parent'' of
                                    Inl e \<Rightarrow> Inl (Inl e, w1)
                                  | Inr p \<Rightarrow> Inr (p, w1))))))
      | _ \<Rightarrow> Inl (Inl TypeError, w))"

text \<open>The loop may run forever: \<open>None\<close> is the run that does not return. The method
  \<^verbatim>\<open>log\<close> is \<open>log_groot\<close> here (\<open>log\<close> is the logarithm).\<close>

partial_function (option) log_loop :: "ext \<Rightarrow> jsval \<Rightarrow> world \<Rightarrow> ((error + unit) \<times> world) option" where
  "log_loop E currentCommitHash w =
     (case log_step E currentCommitHash w of
        Inl r \<Rightarrow> Some r
      | Inr (p, w') \<Rightarrow> log_loop E p w')"

definition log_groot :: "ext \<Rightarrow> world \<Rightarrow> ((error + unit) \<times> world) option" where
  "log_groot E w = log_loop E (map_option JStr (getCurrentHead w)) w"

subsection \<open>getCommitData, getFileContent, getParentFileContent and showCommitDiff\<close>

text \<open>\<^verbatim>\<open>getCommitData\<close> builds the path outside its \<^verbatim>\<open>try\<close> block and reads inside it;
  on a failed read it prints \<^verbatim>\<open>"failed to read the commit data".error\<close>, which is
  \<^verbatim>\<open>undefined\<close>, and returns \<^verbatim>\<open>null\<close>.\<close>

definition getCommitData :: "jsval \<Rightarrow> (string option) io" where
  "getCommitData commitHash w =
     (case commitHash of
        Some (JStr h) \<Rightarrow>
          (case readFile (ObjectFile h) w of
             Inl e \<Rightarrow> (Inr None, console_log Undefined w)
           | Inr d \<Rightarrow> (Inr (Some d), w))
      | _ \<Rightarrow> (Inl TypeError, w))"

definition getFileContent :: "jsval \<Rightarrow> world \<Rightarrow> error + string" where
  "getFileContent fileHash w =
     (case fileHash of
        Some (JStr h) \<Rightarrow> readFile (ObjectFile h) w
      | _ \<Rightarrow> Inl TypeError)"

definition path_is :: "jsval \<Rightarrow> json \<Rightarrow> error + bool" where
  "path_is filePath file =
     (case js_get (Some file) ''path'' of
        Inl e \<Rightarrow> Inl e
      | Inr p \<Rightarrow> Inr (strict_eq p filePath))"

definition getParentFileContent :: "json \<Rightarrow> jsval \<Rightarrow> world \<Rightarrow> error + string option" where
  "getParentFileContent parentCommitData filePath w =
     (case js_get (Some parentCommitData) ''files'' of
        Inl e \<Rightarrow> Inl e
      | Inr files \<Rightarrow>
          (case files of
             Some (JArr xs) \<Rightarrow>
               (case js_find (path_is filePath) xs of
                  Inl e \<Rightarrow> Inl e
                | Inr parentFile \<Rightarrow>
                    if truthy parentFile then
                      (case js_get parentFile ''hash'' of
                         Inl e \<Rightarrow> Inl e
                       | Inr h \<Rightarrow>
                           (case getFileContent h w of
                              Inl e \<Rightarrow> Inl e
                            | Inr c \<Rightarrow> Inr (Some c)))
                    else Inr None)
           | _ \<Rightarrow> Inl TypeError))"

text \<open>The line printed for one part of a diff (the line break that follows it is
  part of the line).\<close>

definition part_line :: "change \<Rightarrow> line" where
  "part_line part =
     (if added part then Added (text_value part)
      else if removed part then Removed (text_value part)
      else Unchanged (text_value part))"

definition print_diff :: "change list \<Rightarrow> world \<Rightarrow> world" where
  "print_diff parts w = foldl (\<lambda>w' part. console_log (part_line part) w') w parts"

text \<open>The body of the loop of \<^verbatim>\<open>showCommitDiff\<close> for one element of
  \<^verbatim>\<open>commitData.files\<close>.\<close>

definition show_file :: "ext \<Rightarrow> json \<Rightarrow> json \<Rightarrow> unit io" where
  "show_file E cd file w =
     (case js_get (Some file) ''path'' of
        Inl e \<Rightarrow> (Inl e, w)
      | Inr filePath \<Rightarrow>
          (let w1 = console_log (FileHeader filePath) w
           in case js_get (Some file) ''hash'' of
                Inl e \<Rightarrow> (Inl e, w1)
              | Inr fileHash \<Rightarrow>
                  (case getFileContent fileHash w1 of
                     Inl e \<Rightarrow> (Inl e, w1)
                   | Inr fileContent \<Rightarrow>
                       (let w2 = console_log (Content fileContent) w1
                        in case js_get (Some cd) ''parent'' of
                             Inl e \<Rightarrow> (Inl e, w2)
                           | Inr parent \<Rightarrow>
                               if truthy parent then
                                 (case getCommitData parent w2 of
                                    (Inl e, w3) \<Rightarrow> (Inl e, w3)
                                  | (Inr x, w3) \<Rightarrow>
                                      (case parse_nullable E x of
                                         Inl e \<Rightarrow> (Inl e, w3)
                                       | Inr parentCommitData \<Rightarrow>
                                           (case getParentFileContent parentCommitData filePath w3 of
                                              Inl e \<Rightarrow> (Inl e, w3)
                                            | Inr None \<Rightarrow> (Inr (), console_log NewFiles w3)
                                            | Inr (Some old) \<Rightarrow>
                                                (Inr (), print_diff (diffLines E old fileContent)
                                                           (console_log DiffHeader w3)))))
                               else (Inr (), console_log FirstCommit w2)))))"

fun show_files :: "ext \<Rightarrow> json \<Rightarrow> json list \<Rightarrow> unit io" where
  "show_files E cd [] w = (Inr (), w)"
| "show_files E cd (file # rest) w =
     (case show_file E cd file w of
        (Inl e, w') \<Rightarrow> (Inl e, w')
      | (Inr u, w') \<Rightarrow> show_files E cd rest w')"

text \<open>The values that \<^verbatim>\<open>for (const x of v)\<close> runs through: the elements of an array,
  the characters of a string; every other value is not iterable.\<close>

fun js_iterate :: "jsval \<Rightarrow> error + json list" where
  "js_iterate (Some (JArr xs)) = Inr xs"
| "js_iterate (Some (JStr s)) = Inr (map (\<lambda>c. JStr [c]) s)"
| "js_iterate v = Inl TypeError"

definition showCommitDiff :: "ext \<Rightarrow> string \<Rightarrow> unit io" where
  "showCommitDiff E commitHash w =
     (case getCommitData (Some (JStr commitHash)) w of
        (Inl e, w0) \<Rightarrow> (Inl e, w0)
      | (Inr x, w0) \<Rightarrow>
          (case parse_nullable E x of
             Inl e \<Rightarrow> (Inl e, w0)
           | Inr cd \<Rightarrow>
               if \<not> truthy (Some cd) then (Inr (), console_log CommitNotFound w0)
               else
                 (let w1 = console_log ChangesInLastCommit w0
                  in case js_get (Some cd) ''files'' of
                       Inl e \<Rightarrow> (Inl e, w1)
                     | Inr files \<Rightarrow>
                         (case js_iterate files of
                            Inl e \<Rightarrow> (Inl e, w1)
                          | Inr elems \<Rightarrow> show_files E cd elems w1))))"

subsection \<open>status\<close>

text \<open>
  \<^verbatim>\<open>headFiles\<close> and \<^verbatim>\<open>currentFileHashes\<close> are plain objects, read as functions from
  keys to members. A key that was set is an own member, with its value. A key never
  set reads as \<^verbatim>\<open>undefined\<close>, unless it is one of the names that every object
  inherits from \<^verbatim>\<open>Object.prototype\<close>: then it reads as the inherited function (for
  \<^verbatim>\<open>__proto__\<close>, as the prototype), of which only the name is kept. An inherited
  member is truthy, equal to itself and different from every other value.
\<close>

datatype member = Inherited string | Own jsval

definition prototype_names :: "string list" where
  "prototype_names =
     [''constructor'', ''__defineGetter__'', ''__defineSetter__'', ''hasOwnProperty'',
      ''__lookupGetter__'', ''__lookupSetter__'', ''isPrototypeOf'', ''propertyIsEnumerable'',
      ''toString'', ''valueOf'', ''__proto__'', ''toLocaleString'']"

definition plain_object :: "string \<Rightarrow> member" where
  "plain_object k = (if k \<in> set prototype_names then Inherited k else Own None)"

fun member_truthy :: "member \<Rightarrow> bool" where
  "member_truthy (Inherited k) = True"
| "member_truthy (Own v) = truthy v"

fun member_eq :: "member \<Rightarrow> member \<Rightarrow> bool" where
  "member_eq (Inherited a) (Inherited b) = (a = b)"
| "member_eq (Own a) (Own b) = strict_eq a b"
| "member_eq a b = False"

text \<open>
  The assignment \<^verbatim>\<open>acc[k] = v\<close>. It makes an own member, a later one over an earlier
  one, except for the key \<^verbatim>\<open>__proto__\<close>: that assignment does nothing when \<open>v\<close> is a
  primitive value or \<^verbatim>\<open>undefined\<close>, and replaces the prototype when \<open>v\<close> is
  \<^verbatim>\<open>null\<close>, an array or an object, which is outside the model.
\<close>

definition assign :: "(string \<Rightarrow> member) \<Rightarrow> string \<Rightarrow> jsval \<Rightarrow> error + (string \<Rightarrow> member)" where
  "assign acc k v =
     (if k = ''__proto__'' then
        (case v of
           Some JNull \<Rightarrow> Inl Unmodelled
         | Some (JArr xs) \<Rightarrow> Inl Unmodelled
         | Some (JObj kvs) \<Rightarrow> Inl Unmodelled
         | _ \<Rightarrow> Inr acc)
      else Inr (acc(k := Own v)))"

fun head_files :: "ext \<Rightarrow> json list \<Rightarrow> (string \<Rightarrow> member) \<Rightarrow> error + (string \<Rightarrow> member)" where
  "head_files E [] acc = Inr acc"
| "head_files E (file # rest) acc =
     (case js_get (Some file) ''path'' of
        Inl e \<Rightarrow> Inl e
      | Inr p \<Rightarrow>
          (case js_get (Some file) ''hash'' of
             Inl e \<Rightarrow> Inl e
           | Inr h \<Rightarrow>
               (case assign acc (js_toString E p) h of
                  Inl e \<Rightarrow> Inl e
                | Inr acc' \<Rightarrow> head_files E rest acc')))"

fun current_hashes :: "ext \<Rightarrow> string list \<Rightarrow> world \<Rightarrow> (string \<Rightarrow> member) \<Rightarrow> error + (string \<Rightarrow> member)" where
  "current_hashes E [] w acc = Inr acc"
| "current_hashes E (file # rest) w acc =
     (case readPath file w of
        Inl e \<Rightarrow> Inl e
      | Inr fileData \<Rightarrow>
          (case assign acc file (Some (JStr (hashObject E fileData))) of
             Inl e \<Rightarrow> Inl e
           | Inr acc' \<Rightarrow> current_hashes E rest w acc'))"

fun print_staged :: "json list \<Rightarrow> unit io" where
  "print_staged [] w = (Inr (), w)"
| "print_staged (file # rest) w =
     (case js_get (Some file) ''path'' of
        Inl e \<Rightarrow> (Inl e, w)
      | Inr p \<Rightarrow> print_staged rest (console_log (StagedModified p) w))"

fun print_not_staged :: "json list \<Rightarrow> (string \<Rightarrow> member) \<Rightarrow> (string \<Rightarrow> member) \<Rightarrow> string list \<Rightarrow> unit io" where
  "print_not_staged index headFiles currentFileHashes [] w = (Inr (), w)"
| "print_not_staged index headFiles currentFileHashes (file # rest) w =
     (case js_find (path_is (Some (JStr file))) index of
        Inl e \<Rightarrow> (Inl e, w)
      | Inr staged \<Rightarrow>
          print_not_staged index headFiles currentFileHashes rest
            (if \<not> truthy staged
                \<and> \<not> member_eq (headFiles file) (currentFileHashes file)
             then console_log (Modified file) w else w))"

fun print_untracked :: "json list \<Rightarrow> (string \<Rightarrow> member) \<Rightarrow> string list \<Rightarrow> unit io" where
  "print_untracked index headFiles [] w = (Inr (), w)"
| "print_untracked index headFiles (file # rest) w =
     (case js_find (path_is (Some (JStr file))) index of
        Inl e \<Rightarrow> (Inl e, w)
      | Inr staged \<Rightarrow>
          print_untracked index headFiles rest
            (if \<not> truthy staged \<and> \<not> member_truthy (headFiles file)
             then console_log (NewFile file) w else w))"

text \<open>The part of \<^verbatim>\<open>status\<close> that prints, from the three values it has computed.\<close>

definition status_report :: "json \<Rightarrow> (string \<Rightarrow> member) \<Rightarrow> (string \<Rightarrow> member) \<Rightarrow> string list \<Rightarrow> unit io" where
  "status_report index headFiles currentFileHashes currentFiles w =
     (let w1 = console_log ToBeCommitted w
      in case index of
           JArr staged \<Rightarrow>
             (case print_staged staged w1 of
                (Inl e, w2) \<Rightarrow> (Inl e, w2)
              | (Inr u, w2) \<Rightarrow>
                  (case print_not_staged staged headFiles currentFileHashes currentFiles
                          (console_log NotStaged w2) of
                     (Inl e, w3) \<Rightarrow> (Inl e, w3)
                   | (Inr u', w3) \<Rightarrow>
                       print_untracked staged headFiles currentFiles
                         (console_log UntrackedHeader w3)))
         | _ \<Rightarrow> (Inl TypeError, w1))"

text \<open>\<^verbatim>\<open>status\<close>; \<open>currentFiles\<close> is the result of \<^verbatim>\<open>getAllFiles(".")\<close>.\<close>

definition head_commit_data :: "ext \<Rightarrow> (json) io" where
  "head_commit_data E w =
     (case getCurrentHead w of
        None \<Rightarrow> (Inr (JObj [(''files'', JArr [])]), w)
      | Some h \<Rightarrow>
          if h = [] then (Inr (JObj [(''files'', JArr [])]), w)
          else
            (case getCommitData (Some (JStr h)) w of
               (Inl e, w') \<Rightarrow> (Inl e, w')
             | (Inr x, w') \<Rightarrow>
                 (case parse_nullable E x of
                    Inl e \<Rightarrow> (Inl e, w')
                  | Inr cd \<Rightarrow> (Inr cd, w'))))"

definition status :: "ext \<Rightarrow> string list \<Rightarrow> unit io" where
  "status E currentFiles w =
     (case readFile IndexFile w of
        Inl e \<Rightarrow> (Inl e, w)
      | Inr txt \<Rightarrow>
          (case parse_text E txt of
             Inl e \<Rightarrow> (Inl e, w)
           | Inr index \<Rightarrow>
               (case head_commit_data E w of
                  (Inl e, w') \<Rightarrow> (Inl e, w')
                | (Inr headCommitData, w') \<Rightarrow>
                    (case js_get (Some headCommitData) ''files'' of
                       Inl e \<Rightarrow> (Inl e, w')
                     | Inr files \<Rightarrow>
                         (case files of
                            Some (JArr xs) \<Rightarrow>
                              (case head_files E xs plain_object of
                                 Inl e \<Rightarrow> (Inl e, w')
                               | Inr headFiles \<Rightarrow>
                                   (case current_hashes E currentFiles w' plain_object of
                                      Inl e \<Rightarrow> (Inl e, w')
                                    | Inr currentFileHashes \<Rightarrow>
                                        status_report index headFiles currentFileHashes
                                          currentFiles w'))
                          | _ \<Rightarrow> (Inl TypeError, w'))))))"

section \<open>The command line\<close>

text \<open>
  One run of the program: every action builds a \<^verbatim>\<open>GRoot\<close>, whose constructor calls
  \<^verbatim>\<open>init\<close>, and then calls one method; \<^verbatim>\<open>add .\<close> is \<^verbatim>\<open>addAll\<close>. The
  constructor does not wait for \<^verbatim>\<open>init\<close>. Once \<^verbatim>\<open>HEAD\<close> exists \<^verbatim>\<open>init\<close> writes
  nothing, so the method finds the repository as it was. Where \<^verbatim>\<open>HEAD\<close> does not
  exist the method runs while \<^verbatim>\<open>init\<close> is writing, and what it finds depends on
  their interleaving: the model does not say (\<open>Unmodelled\<close>). The action \<^verbatim>\<open>init\<close>
  calls no method, and \<^verbatim>\<open>init\<close> then runs alone.

  \<open>Add\<close> and \<open>Status\<close> carry the list that \<^verbatim>\<open>getAllFiles(".")\<close> returns, \<open>Commit\<close>
  and \<open>Stash\<close> the time that \<^verbatim>\<open>new Date().toISOString()\<close> returns. \<open>Edit\<close> and
  \<open>Delete\<close> are the changes that the user makes to a file of the working tree
  between two runs (a path that names a file of the repository, or that is not the
  plain path of a file, changes nothing). \<^verbatim>\<open>log\<close> is not among the commands because
  it may not return; it writes no file.
\<close>

datatype command =
    Init
  | Add string "string list"
  | Commit string string
  | Show string
  | Status "string list"
  | Stash string
  | Edit string string
  | Delete string

definition in_repository :: "ext \<Rightarrow> unit io \<Rightarrow> unit io" where
  "in_repository E method w =
     (if headFile w = None then (Inl Unmodelled, w) else method (init E w))"

definition working_path :: "string \<Rightarrow> bool" where
  "working_path p =
     (list_all (\<lambda>s. s \<noteq> [] \<and> s \<noteq> ''.'' \<and> s \<noteq> ''..'') (split_slash p)
      \<and> classify (split_slash p) = WorkFile p)"

fun exec :: "ext \<Rightarrow> command \<Rightarrow> unit io" where
  "exec E Init w = (Inr (), init E w)"
| "exec E (Add file currentFiles) w =
     in_repository E (if file = ''.'' then addAll E currentFiles else add E file) w"
| "exec E (Commit now message) w = in_repository E (commit E now message) w"
| "exec E (Show commitHash) w = in_repository E (showCommitDiff E commitHash) w"
| "exec E (Status currentFiles) w = in_repository E (status E currentFiles) w"
| "exec E (Stash now) w = in_repository E (stash E now) w"
| "exec E (Edit p c) w = (Inr (), if working_path p then store (WorkFile p) c w else w)"
| "exec E (Delete p) w =
     (Inr (), if working_path p then w\<lparr>workTree := (workTree w)(p := None)\<rparr> else w)"

text \<open>A sequence of runs; an exception ends one run, not the sequence.\<close>

fun run :: "ext \<Rightarrow> command list \<Rightarrow> world \<Rightarrow> world" where
  "run E [] w = w"
| "run E (c # cs) w = run E cs (snd (exec E c w))"

text \<open>
  The commits that a sequence of runs has created, the newest first, each with its
  digest (the content of \<^verbatim>\<open>HEAD\<close> after the commit), its time and its message.
\<close>

definition created :: "ext \<Rightarrow> command \<Rightarrow> world \<Rightarrow> (string \<times> string \<times> string) list" where
  "created E c w =
     (case c of
        Commit now message \<Rightarrow>
          (case exec E c w of
             (Inr u, w') \<Rightarrow> (case headFile w' of None \<Rightarrow> [] | Some d \<Rightarrow> [(d, now, message)])
           | (Inl e, w') \<Rightarrow> [])
      | _ \<Rightarrow> [])"

fun history :: "ext \<Rightarrow> command list \<Rightarrow> world \<Rightarrow> (string \<times> string \<times> string) list" where
  "history E [] w = []"
| "history E (c # cs) w = history E cs (snd (exec E c w)) @ created E c w"

text \<open>
  What the proofs about whole histories ask of the libraries on a sequence of runs:
  the digest of a content written to the object store names no object of another
  content (no collision of SHA-1 shows), and \<^verbatim>\<open>JSON.parse\<close> reads back the commit
  record that \<^verbatim>\<open>JSON.stringify\<close> has written.
\<close>

definition no_clash :: "ext \<Rightarrow> string \<Rightarrow> world \<Rightarrow> bool" where
  "no_clash E content w =
     (case objectsDir w (hashObject E content) of None \<Rightarrow> True | Some c \<Rightarrow> c = content)"

definition add_faithful :: "ext \<Rightarrow> string \<Rightarrow> world \<Rightarrow> bool" where
  "add_faithful E p w = (case readPath p w of Inl e \<Rightarrow> True | Inr c \<Rightarrow> no_clash E c w)"

fun addAll_faithful :: "ext \<Rightarrow> string list \<Rightarrow> world \<Rightarrow> bool" where
  "addAll_faithful E [] w = True"
| "addAll_faithful E (f # fs) w =
     (add_faithful E f w
      \<and> (case add E f w of (Inl e, w') \<Rightarrow> True | (Inr u, w') \<Rightarrow> addAll_faithful E fs w'))"

definition commit_faithful :: "ext \<Rightarrow> string \<Rightarrow> string \<Rightarrow> world \<Rightarrow> bool" where
  "commit_faithful E now message w =
     (case indexFile w of
        None \<Rightarrow> True
      | Some txt \<Rightarrow>
          (case JSON_parse E txt of
             None \<Rightarrow> True
           | Some index \<Rightarrow>
               no_clash E (JSON_stringify E (commitData now message index (getCurrentHead w))) w
               \<and> JSON_parse E (JSON_stringify E (commitData now message index (getCurrentHead w)))
                   = Some (commitData now message index (getCurrentHead w))))"

fun faithful_step :: "ext \<Rightarrow> command \<Rightarrow> world \<Rightarrow> bool" where
  "faithful_step E (Add file currentFiles) w =
     (if file = ''.'' then addAll_faithful E currentFiles (init E w)
      else add_faithful E file (init E w))"
| "faithful_step E (Commit now message) w = commit_faithful E now message (init E w)"
| "faithful_step E c w = True"

fun faithful_run :: "ext \<Rightarrow> command list \<Rightarrow> world \<Rightarrow> bool" where
  "faithful_run E [] w = True"
| "faithful_run E (c # cs) w = (faithful_step E c w \<and> faithful_run E cs (snd (exec E c w)))"

text \<open>The lines of a diff, as opposed to the other lines that \<^verbatim>\<open>showCommitDiff\<close>
  prints.\<close>

fun hunk_line :: "line \<Rightarrow> bool" where
  "hunk_line DiffHeader = True"
| "hunk_line (Added s) = True"
| "hunk_line (Removed s) = True"
| "hunk_line (Unchanged s) = True"
| "hunk_line l = False"

text \<open>
  What \<^verbatim>\<open>showCommitDiff\<close> is expected to print, stated apart from the code. A file
  list is given by its entries, each a path and the digest of a blob. For one entry
  of the commit shown: its path and its content; then, when the file list of the
  parent has no entry of that path, the new-file line and nothing more; otherwise
  the header of the diff and the parts of the diff between the content that the
  parent's first entry of that path names and the content of the entry.
\<close>

definition file_list :: "(string \<times> string) list \<Rightarrow> json" where
  "file_list entries = JArr (map (\<lambda>(p, h). index_entry p h) entries)"

definition expected_lines ::
    "ext \<Rightarrow> (string \<rightharpoonup> string) \<Rightarrow> (string \<times> string) list \<Rightarrow> string \<times> string \<Rightarrow> event list" where
  "expected_lines E objs parent_entries x =
     (case objs (snd x) of
        None \<Rightarrow> []
      | Some c \<Rightarrow>
          [Print (FileHeader (Some (JStr (fst x)))), Print (Content c)]
          @ (case map_of parent_entries (fst x) of
               None \<Rightarrow> [Print NewFiles]
             | Some oh \<Rightarrow>
                 (case objs oh of
                    None \<Rightarrow> []
                  | Some old \<Rightarrow>
                      Print DiffHeader # map (\<lambda>part. Print (part_line part)) (diffLines E old c))))"

text \<open>Every entry names a blob that the store holds.\<close>

definition blobs_stored :: "(string \<rightharpoonup> string) \<Rightarrow> (string \<times> string) list \<Rightarrow> bool" where
  "blobs_stored objs entries = list_all (\<lambda>x. snd x \<noteq> [] \<and> objs (snd x) \<noteq> None) entries"

section \<open>Invariants of a history\<close>

text \<open>Two states of the disk with the same files (the traces may differ).\<close>

definition same_files :: "world \<Rightarrow> world \<Rightarrow> bool" where
  "same_files w w' =
     (objectsDir w' = objectsDir w \<and> headFile w' = headFile w \<and> indexFile w' = indexFile w
      \<and> stashFile w' = stashFile w \<and> workTree w' = workTree w)"

text \<open>The digest of the newest commit of a history, \<open>h\<close> when there is none.\<close>

definition tip :: "(string \<times> string \<times> string) list \<Rightarrow> string \<Rightarrow> string" where
  "tip hist h = (case hist of [] \<Rightarrow> h | x # rest \<Rightarrow> fst x)"

text \<open>The line that \<^verbatim>\<open>log\<close> prints for a commit.\<close>

definition log_line :: "string \<times> string \<times> string \<Rightarrow> event" where
  "log_line x =
     (case x of (d, now, message) \<Rightarrow> Print (LogEntry d (Some (JStr now)) (Some (JStr message))))"

text \<open>
  The object store holds a history: every commit has a digest that is not empty and
  an object that is a commit record of its time and message, which \<^verbatim>\<open>JSON.parse\<close>
  reads back and whose parent is the digest of the commit before it (the empty text
  for the oldest).
\<close>

fun chain_ok :: "ext \<Rightarrow> (string \<rightharpoonup> string) \<Rightarrow> (string \<times> string \<times> string) list \<Rightarrow> bool" where
  "chain_ok E objs [] = True"
| "chain_ok E objs (x # rest) =
     (fst x \<noteq> []
      \<and> (\<exists>index.
            objs (fst x)
              = Some (JSON_stringify E
                        (commitData (fst (snd x)) (snd (snd x)) index (Some (tip rest []))))
            \<and> JSON_parse E
                (JSON_stringify E
                   (commitData (fst (snd x)) (snd (snd x)) index (Some (tip rest []))))
              = Some (commitData (fst (snd x)) (snd (snd x)) index (Some (tip rest []))))
      \<and> chain_ok E objs rest)"

definition history_inv :: "ext \<Rightarrow> world \<Rightarrow> (string \<times> string \<times> string) list \<Rightarrow> bool" where
  "history_inv E w hist =
     (headFile w = Some (tip hist []) \<and> chain_ok E (objectsDir w) hist
      \<and> distinct (map fst hist))"

section \<open>A concrete environment and concrete repositories\<close>

text \<open>
  An environment to run the model on: a JSON printer for values whose strings need
  no escape, a reader that reads back the documents of a given list, the length of a
  text in place of its SHA-1 digest, and a diff that reports the old text as removed
  and the new one as added.
\<close>

fun sample_stringify :: "json \<Rightarrow> string" where
  "sample_stringify JNull = ''null''"
| "sample_stringify (JBool b) = (if b then ''true'' else ''false'')"
| "sample_stringify (JNum n) = ''0''"
| "sample_stringify (JStr s) = [CHR 0x22] @ s @ [CHR 0x22]"
| "sample_stringify (JArr xs) = ''['' @ join_comma (map sample_stringify xs) @ '']''"
| "sample_stringify (JObj kvs) =
     ''{'' @ join_comma (map (\<lambda>(k, v). [CHR 0x22] @ k @ [CHR 0x22] @ '':'' @ sample_stringify v) kvs)
       @ ''}''"

definition sample_parse :: "json list \<Rightarrow> string \<Rightarrow> json option" where
  "sample_parse docs s = List.find (\<lambda>v. sample_stringify v = s) docs"

definition sample_diff :: "string \<Rightarrow> string \<Rightarrow> change list" where
  "sample_diff old new =
     (if old = new then [\<lparr>added = False, removed = False, text_value = new\<rparr>]
      else [\<lparr>added = False, removed = True, text_value = old\<rparr>,
            \<lparr>added = True, removed = False, text_value = new\<rparr>])"

definition sample_ext :: "json list \<Rightarrow> ext" where
  "sample_ext docs =
     \<lparr>sha1 = (\<lambda>c. of_nat (length c)),
      JSON_stringify = sample_stringify,
      JSON_parse = sample_parse docs,
      diffLines = sample_diff,
      Number_toString = (\<lambda>n. ''0'')\<rparr>"

text \<open>The digest of a text in this environment.\<close>

definition sample_hash :: "string \<Rightarrow> string" where
  "sample_hash c = hex_digits 40 (unat (of_nat (length c) :: 160 word))"

text \<open>
  The documents of the example: a first commit of nothing, then \<^verbatim>\<open>a.txt\<close> staged
  twice, with two contents, and committed.
\<close>

definition first_record :: json where
  "first_record = commitData ''t1'' ''first'' (JArr []) (Some [])"

definition once_staged :: json where
  "once_staged = JArr [index_entry ''a.txt'' (sample_hash ''hello'')]"

definition twice_staged :: json where
  "twice_staged =
     JArr [index_entry ''a.txt'' (sample_hash ''hello''),
           index_entry ''a.txt'' (sample_hash ''hello world'')]"

definition second_record :: json where
  "second_record =
     commitData ''t2'' ''second'' twice_staged
       (Some (sample_hash (sample_stringify first_record)))"

text \<open>Then \<^verbatim>\<open>a.txt\<close> changed and a new file \<^verbatim>\<open>b.txt\<close>, staged and committed.\<close>

definition third_entries :: "(string \<times> string) list" where
  "third_entries =
     [(''a.txt'', sample_hash ''hello, world''), (''b.txt'', sample_hash ''hello world'')]"

definition second_entries :: "(string \<times> string) list" where
  "second_entries =
     [(''a.txt'', sample_hash ''hello''), (''a.txt'', sample_hash ''hello world'')]"

definition third_record :: json where
  "third_record =
     commitData ''t3'' ''third'' (file_list third_entries)
       (Some (sample_hash (sample_stringify second_record)))"

text \<open>The index after \<^verbatim>\<open>add .groot/stash\<close> on a new repository.\<close>

definition stash_staged :: json where
  "stash_staged = JArr [index_entry ''.groot/stash'' (sample_hash ''[]'')]"

definition sample_docs :: "json list" where
  "sample_docs =
     [JNull, JArr [], once_staged, twice_staged, first_record, second_record,
      file_list (take 1 third_entries), file_list third_entries, third_record, stash_staged]"

definition sample_env :: ext where
  "sample_env = sample_ext sample_docs"

text \<open>A directory without \<^verbatim>\<open>.groot\<close> that holds the given files, and the
  repository that \<^verbatim>\<open>init\<close> makes of it.\<close>

definition blank :: "(string \<times> string) list \<Rightarrow> world" where
  "blank files =
     \<lparr>objectsDir = Map.empty, headFile = None, indexFile = None, stashFile = None,
      workTree = map_of (map (\<lambda>(p, c). (p, File c)) files), trace = []\<rparr>"

definition fresh :: "ext \<Rightarrow> (string \<times> string) list \<Rightarrow> world" where
  "fresh E files = init E (blank files)"

definition staging_run :: "command list" where
  "staging_run =
     [Commit ''t1'' ''first'',
      Edit ''a.txt'' ''hello'', Add ''a.txt'' [],
      Edit ''a.txt'' ''hello world'', Add ''a.txt'' [],
      Edit ''b.txt'' ''hello world'']"

definition sample_run :: "command list" where
  "sample_run = staging_run @ [Commit ''t2'' ''second'']"

definition staged :: world where
  "staged = run sample_env staging_run (fresh sample_env [])"

definition committed :: world where
  "committed = run sample_env sample_run (fresh sample_env [])"

definition third_run :: "command list" where
  "third_run =
     sample_run @
     [Edit ''a.txt'' ''hello, world'', Add ''a.txt'' [], Add ''b.txt'' [],
      Commit ''t3'' ''third'']"

definition finished :: world where
  "finished = run sample_env third_run (fresh sample_env [])"

text \<open>A repository whose \<^verbatim>\<open>HEAD\<close> names an object that the store does not hold.\<close>

definition dangling :: world where
  "dangling = (fresh sample_env [])\<lparr>headFile := Some (sample_hash ''gone'')\<rparr>"

section \<open>Basic facts\<close>

lemma length_hex_digits: "length (hex_digits k n) = k"
  by (induction k arbitrary: n) simp_all

lemma hashObject_nonempty: "hashObject E c \<noteq> []"
proof -
  have "length (hashObject E c) = 40"
    by (simp add: hashObject_def length_hex_digits)
  then show ?thesis by auto
qed

lemma getCurrentHead_eq: "getCurrentHead w = headFile w"
  by (simp add: getCurrentHead_def lookup_file_def split: option.splits)

lemma commitData_fields:
  "js_get (Some (commitData now m index p)) ''files'' = Inr (Some index)"
  "js_get (Some (commitData now m index p)) ''timeStamp'' = Inr (Some (JStr now))"
  "js_get (Some (commitData now m index p)) ''message'' = Inr (Some (JStr m))"
  "js_get (Some (commitData now m index (Some h))) ''parent'' = Inr (Some (JStr h))"
  by (simp_all add: commitData_def)

lemma commitData_parent_inj:
  "commitData now m index (Some h) = commitData now' m' index' (Some h') \<Longrightarrow> h = h'"
  by (simp add: commitData_def)

lemma stash_entry_fields:
  "js_get (Some (stash_entry now index)) ''files'' = Inr (Some index)"
  "js_get (Some (stash_entry now index)) ''timeStamp'' = Inr (Some (JStr now))"
  by (simp_all add: stash_entry_def)

lemma init_noop: "headFile w \<noteq> None \<Longrightarrow> init E w = w"
  by (simp add: init_def)

section \<open>commit\<close>

lemma commit_ok:
  assumes "indexFile w = Some itxt" and "JSON_parse E itxt = Some index"
  shows "commit E now message w =
    (let data = JSON_stringify E (commitData now message index (getCurrentHead w));
         d = hashObject E data
     in (Inr (), console_log (CommitCreated d)
          (writeFile IndexFile (JSON_stringify E (JArr []))
            (writeFile HeadFile d (writeFile (ObjectFile d) data w)))))"
  using assms by (simp add: commit_def lookup_file_def parse_text_def Let_def)

lemma commit_fail: "commit E now m w = (Inl e, w') \<Longrightarrow> w' = w"
  by (auto simp: commit_def Let_def split: sum.splits)

lemma commit_success:
  assumes "commit E now m w = (Inr u, w')"
  shows "\<exists>itxt index. indexFile w = Some itxt \<and> JSON_parse E itxt = Some index"
  using assms
  by (auto simp: commit_def Let_def lookup_file_def parse_text_def split: sum.splits option.splits)

text \<open>
  Claim C1. When the index file holds a text that \<^verbatim>\<open>JSON.parse\<close> reads as \<open>index\<close>,
  \<^verbatim>\<open>commit\<close> returns normally; the object stored under the new digest is the
  serialisation of a record whose \<^verbatim>\<open>files\<close> is \<open>index\<close> itself, and
  \<^verbatim>\<open>getCommitData\<close> returns it (it parses to that record whenever \<^verbatim>\<open>JSON.parse\<close> reads
  back what \<^verbatim>\<open>JSON.stringify\<close> wrote); afterwards the index file holds the empty
  array and \<^verbatim>\<open>HEAD\<close> the new digest. The writes happen in this order: the object, then
  \<^verbatim>\<open>HEAD\<close>, then the index.
\<close>

theorem commit_snapshot:
  assumes "indexFile w = Some itxt" and "JSON_parse E itxt = Some index"
  shows "let cd = commitData now message index (getCurrentHead w);
             data = JSON_stringify E cd;
             d = hashObject E data;
             w' = snd (commit E now message w)
         in fst (commit E now message w) = Inr ()
          \<and> js_get (Some cd) ''files'' = Inr (Some index)
          \<and> objectsDir w' d = Some data
          \<and> getCommitData (Some (JStr d)) w' = (Inr (Some data), w')
          \<and> (JSON_parse E data = Some cd \<longrightarrow> parse_nullable E (Some data) = Inr cd)
          \<and> indexFile w' = Some (JSON_stringify E (JArr []))
          \<and> headFile w' = Some d
          \<and> trace w' = trace w @
               [Write (ObjectFile d) data, Write HeadFile d,
                Write IndexFile (JSON_stringify E (JArr [])), Print (CommitCreated d)]"
  by (simp add: commit_ok [OF assms] Let_def writeFile_def console_log_def commitData_fields
      getCommitData_def lookup_file_def hashObject_nonempty parse_nullable_def parse_text_def)

text \<open>
  Claim C10. No guard rejects an empty staging area: when the index file holds the
  empty array, \<^verbatim>\<open>commit\<close> returns normally, stores a record whose \<^verbatim>\<open>files\<close> is the
  empty array and sets \<^verbatim>\<open>HEAD\<close> to the digest of that record.
\<close>

theorem commit_empty_index:
  assumes "indexFile w = Some itxt" and "JSON_parse E itxt = Some (JArr [])"
  shows "let cd = commitData now message (JArr []) (getCurrentHead w);
             d = hashObject E (JSON_stringify E cd);
             w' = snd (commit E now message w)
         in fst (commit E now message w) = Inr ()
          \<and> js_get (Some cd) ''files'' = Inr (Some (JArr []))
          \<and> objectsDir w' d = Some (JSON_stringify E cd)
          \<and> headFile w' = Some d"
  by (simp add: commit_ok [OF assms] Let_def writeFile_def console_log_def commitData_fields)

section \<open>stash\<close>

text \<open>
  Claim C9. When the index file parses to \<open>index\<close> and the stash file to the array
  \<open>entries\<close>, \<^verbatim>\<open>stash\<close> returns normally; the stash file then holds \<open>entries\<close>
  followed by the one entry of the time and of \<open>index\<close>, the index file holds the
  empty array, and \<^verbatim>\<open>HEAD\<close>, the object store and the working tree are as before: the
  only files written are the stash and the index.
\<close>

theorem stash_appends_and_clears:
  assumes "indexFile w = Some itxt" and "JSON_parse E itxt = Some index"
    and "stashFile w = Some stxt" and "JSON_parse E stxt = Some (JArr entries)"
  shows "let w' = snd (stash E now w)
         in fst (stash E now w) = Inr ()
          \<and> stashFile w' = Some (JSON_stringify E (JArr (entries @ [stash_entry now index])))
          \<and> js_get (Some (stash_entry now index)) ''files'' = Inr (Some index)
          \<and> js_get (Some (stash_entry now index)) ''timeStamp'' = Inr (Some (JStr now))
          \<and> indexFile w' = Some (JSON_stringify E (JArr []))
          \<and> headFile w' = headFile w
          \<and> objectsDir w' = objectsDir w
          \<and> workTree w' = workTree w
          \<and> trace w' = trace w @
               [Write StashFile (JSON_stringify E (JArr (entries @ [stash_entry now index]))),
                Write IndexFile (JSON_stringify E (JArr [])), Print Stashed]"
  using assms
  by (simp add: stash_def lookup_file_def parse_text_def Let_def writeFile_def console_log_def
      stash_entry_fields)

lemma stash_frame:
  "headFile (snd (stash E now w)) = headFile w"
  "objectsDir (snd (stash E now w)) = objectsDir w"
  by (simp_all add: stash_def Let_def writeFile_def console_log_def split: sum.splits)

section \<open>add\<close>

lemma updateStagingArea_frame:
  "objectsDir (snd (updateStagingArea E p h w)) = objectsDir w"
  "headFile (snd (updateStagingArea E p h w)) = headFile w"
  "stashFile (snd (updateStagingArea E p h w)) = stashFile w"
  "workTree (snd (updateStagingArea E p h w)) = workTree w"
  by (simp_all add: updateStagingArea_def writeFile_def split: sum.splits)

lemma updateStagingArea_trace:
  "\<exists>evs. trace (snd (updateStagingArea E p h w)) = trace w @ evs"
  by (simp add: updateStagingArea_def writeFile_def split: sum.splits)

lemma add_objects:
  assumes "readPath p w = Inr c"
  shows "objectsDir (snd (add E p w)) = (objectsDir w)(hashObject E c \<mapsto> c)"
  using assms
  by (simp add: add_def Let_def updateStagingArea_frame writeFile_def)

lemma add_trace:
  assumes "readPath p w = Inr c"
  shows "\<exists>evs. trace (snd (add E p w)) = trace w @ Write (ObjectFile (hashObject E c)) c # evs"
proof -
  let ?w1 = "writeFile (ObjectFile (hashObject E c)) c w"
  from updateStagingArea_trace [of E p "hashObject E c" ?w1]
  obtain evs where "trace (snd (updateStagingArea E p (hashObject E c) ?w1)) = trace ?w1 @ evs"
    by blast
  then have "trace (snd (add E p w)) = trace w @ Write (ObjectFile (hashObject E c)) c # evs"
    using assms by (simp add: add_def Let_def writeFile_def)
  then show ?thesis by blast
qed

lemma add_fail: "readPath p w = Inl e \<Longrightarrow> add E p w = (Inl e, w)"
  by (simp add: add_def)

lemma add_head: "headFile (snd (add E p w)) = headFile w"
  by (simp add: add_def Let_def updateStagingArea_frame writeFile_def split: sum.splits)

text \<open>\<^verbatim>\<open>add\<close> writes under \<^verbatim>\<open>.groot\<close> only.\<close>

lemma add_workTree: "workTree (snd (add E p w)) = workTree w"
  by (simp add: add_def Let_def updateStagingArea_frame writeFile_def split: sum.splits)

lemma addAll_head: "headFile (snd (addAll E fs w)) = headFile w"
proof (induction fs arbitrary: w)
  case Nil
  then show ?case by simp
next
  case (Cons f fs)
  show ?case
  proof (cases "add E f w")
    case (Pair r w1)
    then have "headFile w1 = headFile w"
      using add_head [of E f w] by simp
    with Pair Cons show ?thesis
      by (cases r) simp_all
  qed
qed

text \<open>
  Claim C5. The digest is a function of the content, so two files of the same
  content \<open>c\<close> have the same digest. When \<^verbatim>\<open>add\<close> of a first path reads \<open>c\<close> and
  \<^verbatim>\<open>add\<close> of a second path, called next, reads \<open>c\<close> too (from the files as the first
  call has left them), the first call stores \<open>c\<close> under that digest and the second
  writes the same object again: after either call the store is the old store with
  the one object \<open>hashObject E c\<close>, \<^verbatim>\<open>getFileContent\<close> of the digest returns \<open>c\<close>, and
  each call begins by writing \<open>c\<close> to that same object file.
\<close>

theorem same_content_one_object:
  assumes "readPath p1 w = Inr c" and "readPath p2 (snd (add E p1 w)) = Inr c"
  shows "let w1 = snd (add E p1 w); w2 = snd (add E p2 w1)
         in objectsDir w1 = (objectsDir w)(hashObject E c \<mapsto> c)
          \<and> objectsDir w2 = (objectsDir w)(hashObject E c \<mapsto> c)
          \<and> getFileContent (Some (JStr (hashObject E c))) w1 = Inr c
          \<and> getFileContent (Some (JStr (hashObject E c))) w2 = Inr c
          \<and> dom (objectsDir w2) = insert (hashObject E c) (dom (objectsDir w))
          \<and> (\<exists>evs. trace w1 = trace w @ Write (ObjectFile (hashObject E c)) c # evs)
          \<and> (\<exists>evs. trace w2 = trace w1 @ Write (ObjectFile (hashObject E c)) c # evs)"
proof -
  have 1: "objectsDir (snd (add E p1 w)) = (objectsDir w)(hashObject E c \<mapsto> c)"
    by (rule add_objects [OF assms(1)])
  have 2: "objectsDir (snd (add E p2 (snd (add E p1 w)))) = (objectsDir w)(hashObject E c \<mapsto> c)"
    by (simp add: add_objects [OF assms(2)] 1)
  show ?thesis
    using add_trace [OF assms(1), of E] add_trace [OF assms(2), of E]
    by (simp add: Let_def 1 2 getFileContent_def lookup_file_def hashObject_nonempty)
qed

section \<open>The methods that only read\<close>

lemma same_files_refl [simp]: "same_files w w"
  by (simp add: same_files_def)

lemma same_files_console_log [simp]: "same_files w (console_log l w') = same_files w w'"
  by (simp add: same_files_def console_log_def)

lemma print_diff_same [simp]: "same_files w (print_diff parts w') = same_files w w'"
  unfolding print_diff_def by (induction parts arbitrary: w') simp_all

lemma show_file_same: "same_files w (snd (show_file E cd x w')) = same_files w w'"
  by (auto simp: show_file_def Let_def getCommitData_def
      split: sum.splits option.splits prod.splits json.splits)

lemma show_files_same: "same_files w (snd (show_files E cd xs w')) = same_files w w'"
proof (induction xs arbitrary: w')
  case Nil
  then show ?case by simp
next
  case (Cons x rest)
  show ?case
  proof (cases "show_file E cd x w'")
    case (Pair r w1)
    with Cons show_file_same [of w E cd x w'] show ?thesis
      by (cases r) simp_all
  qed
qed

lemma showCommitDiff_same: "same_files w (snd (showCommitDiff E h w))"
  by (auto simp: showCommitDiff_def Let_def getCommitData_def show_files_same
      split: sum.splits option.splits prod.splits)

lemma print_staged_same: "same_files w (snd (print_staged xs w')) = same_files w w'"
  by (induction xs arbitrary: w') (simp_all split: sum.splits)

lemma print_not_staged_same:
  "same_files w (snd (print_not_staged index hf ch fs w')) = same_files w w'"
  by (induction fs arbitrary: w') (simp_all split: sum.splits)

lemma print_untracked_same:
  "same_files w (snd (print_untracked index hf fs w')) = same_files w w'"
  by (induction fs arbitrary: w') (simp_all split: sum.splits)

lemma status_report_same:
  "same_files w (snd (status_report index hf ch fs w')) = same_files w w'"
proof (cases index)
  case (JArr staged_files)
  show ?thesis
  proof (cases "print_staged staged_files (console_log ToBeCommitted w')")
    case p1: (Pair r1 w2)
    have s2: "same_files w w2 = same_files w w'"
      using print_staged_same [of w staged_files "console_log ToBeCommitted w'"] p1 by simp
    show ?thesis
    proof (cases r1)
      case (Inl e)
      with JArr p1 s2 show ?thesis by (simp add: status_report_def Let_def)
    next
      case (Inr u)
      show ?thesis
      proof (cases "print_not_staged staged_files hf ch fs (console_log NotStaged w2)")
        case p2: (Pair r2 w3)
        have s3: "same_files w w3 = same_files w w'"
          using print_not_staged_same [of w staged_files hf ch fs "console_log NotStaged w2"] p2 s2
          by simp
        from JArr p1 Inr p2 s3 show ?thesis
          by (cases r2) (simp_all add: status_report_def Let_def print_untracked_same)
      qed
    qed
  qed
qed (simp_all add: status_report_def Let_def)

lemma head_commit_data_same: "same_files w (snd (head_commit_data E w))"
  by (auto simp: head_commit_data_def getCommitData_def split: option.splits sum.splits)

lemma status_same: "same_files w (snd (status E fs w))"
proof (cases "head_commit_data E w")
  case (Pair r w')
  then have "same_files w w'"
    using head_commit_data_same [of w E] by simp
  with Pair show ?thesis
    by (auto simp: status_def status_report_same split: sum.splits option.splits json.splits)
qed

section \<open>HEAD along a history\<close>

lemma tip_append: "tip (xs @ ys) h = tip xs (tip ys h)"
  by (cases xs) (simp_all add: tip_def)

lemma tip_mem: "hist \<noteq> [] \<Longrightarrow> tip hist h \<in> fst ` set hist"
  by (cases hist) (simp_all add: tip_def)

lemma tip_split: "tip (pre @ x # rest) h \<in> fst ` set (pre @ [x])"
  by (cases pre) (simp_all add: tip_def)

lemma exec_head:
  assumes "headFile w = Some h"
  shows "headFile (snd (exec E c w)) = Some (tip (created E c w) h)
         \<and> (\<forall>x\<in>set (created E c w). fst x \<noteq> [])"
proof (cases c)
  case Init
  with assms show ?thesis by (simp add: created_def tip_def init_noop)
next
  case (Add p fs)
  with assms show ?thesis
    by (simp add: created_def tip_def in_repository_def init_noop add_head addAll_head)
next
  case (Commit now m)
  show ?thesis
  proof (cases "commit E now m w")
    case (Pair r w')
    show ?thesis
    proof (cases r)
      case (Inl e)
      with Pair have "w' = w" by (simp add: commit_fail)
      with Pair Inl Commit assms show ?thesis
        by (simp add: created_def tip_def in_repository_def init_noop)
    next
      case (Inr u)
      with Pair have "\<exists>itxt idx. indexFile w = Some itxt \<and> JSON_parse E itxt = Some idx"
        using commit_success by blast
      then obtain itxt idx where i: "indexFile w = Some itxt" "JSON_parse E itxt = Some idx"
        by blast
      show ?thesis
        using Commit assms
        by (simp add: created_def tip_def in_repository_def init_noop commit_ok [OF i] Let_def
            writeFile_def console_log_def hashObject_nonempty)
    qed
  qed
next
  case (Show x)
  with assms showCommitDiff_same [of w E x] show ?thesis
    by (simp add: created_def tip_def in_repository_def init_noop same_files_def)
next
  case (Status fs)
  with assms status_same [of w E fs] show ?thesis
    by (simp add: created_def tip_def in_repository_def init_noop same_files_def)
next
  case (Stash now)
  with assms show ?thesis
    by (simp add: created_def tip_def in_repository_def init_noop stash_frame)
next
  case (Edit p d)
  with assms show ?thesis by (simp add: created_def tip_def)
next
  case (Delete p)
  with assms show ?thesis by (simp add: created_def tip_def)
qed

lemma run_head:
  assumes "headFile w = Some h"
  shows "headFile (run E cmds w) = Some (tip (history E cmds w) h)
         \<and> (\<forall>x\<in>set (history E cmds w). fst x \<noteq> [])"
  using assms
proof (induction cmds arbitrary: w h)
  case Nil
  then show ?case by (simp add: tip_def)
next
  case (Cons c cs)
  from exec_head [OF Cons.prems, of E c]
  have 1: "headFile (snd (exec E c w)) = Some (tip (created E c w) h)"
    and 2: "\<forall>x\<in>set (created E c w). fst x \<noteq> []" by simp_all
  from Cons.IH [OF 1] 2 show ?case
    by (auto simp: tip_append)
qed

text \<open>
  Claim C3, as the code has it. In a repository whose \<^verbatim>\<open>HEAD\<close> was empty before the
  runs \<open>cmds\<close>, a commit that finds a readable index returns normally and stores a
  record whose \<^verbatim>\<open>parent\<close> is the text that \<^verbatim>\<open>HEAD\<close> held: the digest of the newest
  commit of the history, and the empty text (not \<^verbatim>\<open>null\<close>) exactly when the history
  has no commit, that is for the first commit.
\<close>

theorem commit_parent:
  assumes "headFile w0 = Some []"
    and "indexFile (run E cmds w0) = Some itxt" and "JSON_parse E itxt = Some index"
  shows "let w = run E cmds w0;
             h = tip (history E cmds w0) [];
             cd = commitData now message index (Some h);
             w' = snd (commit E now message w)
         in fst (commit E now message w) = Inr ()
          \<and> getCurrentHead w = Some h
          \<and> objectsDir w' (hashObject E (JSON_stringify E cd)) = Some (JSON_stringify E cd)
          \<and> headFile w' = Some (hashObject E (JSON_stringify E cd))
          \<and> js_get (Some cd) ''parent'' = Inr (Some (JStr h))
          \<and> (h = [] \<longleftrightarrow> history E cmds w0 = [])"
proof -
  from run_head [OF assms(1), of E cmds]
  have hd: "headFile (run E cmds w0) = Some (tip (history E cmds w0) [])"
    and ne: "\<forall>x\<in>set (history E cmds w0). fst x \<noteq> []" by simp_all
  have iff: "tip (history E cmds w0) [] = [] \<longleftrightarrow> history E cmds w0 = []"
    using ne by (cases "history E cmds w0") (simp_all add: tip_def)
  show ?thesis
    using iff
    by (simp add: Let_def commit_ok [OF assms(2,3)] getCurrentHead_eq hd writeFile_def
        console_log_def commitData_def)
qed

section \<open>log\<close>

lemma log_step_done: "log_step E (Some (JStr [])) w = Inl (Inr (), w)"
  by (simp add: log_step_def)

lemma log_step_next:
  assumes "d \<noteq> []" and "objectsDir w d = Some (JSON_stringify E (commitData now m index (Some h)))"
    and "JSON_parse E (JSON_stringify E (commitData now m index (Some h)))
         = Some (commitData now m index (Some h))"
  shows "log_step E (Some (JStr d)) w
         = Inr (Some (JStr h), console_log (LogEntry d (Some (JStr now)) (Some (JStr m))) w)"
  using assms
  by (simp add: log_step_def lookup_file_def parse_text_def commitData_fields Let_def)

lemma log_loop_chain:
  assumes "chain_ok E (objectsDir w) hist"
  shows "log_loop E (Some (JStr (tip hist []))) w
         = Some (Inr (), w\<lparr>trace := trace w @ map log_line hist\<rparr>)"
  using assms
proof (induction hist arbitrary: w)
  case Nil
  show ?case
    by (subst log_loop.simps) (simp add: tip_def log_step_done)
next
  case (Cons x rest)
  obtain d now m where x: "x = (d, now, m)" by (cases x) auto
  from Cons.prems x obtain index where
    d: "d \<noteq> []"
    and o: "objectsDir w d = Some (JSON_stringify E (commitData now m index (Some (tip rest []))))"
    and p: "JSON_parse E (JSON_stringify E (commitData now m index (Some (tip rest []))))
            = Some (commitData now m index (Some (tip rest [])))"
    and r: "chain_ok E (objectsDir w) rest"
    by auto
  let ?w1 = "console_log (LogEntry d (Some (JStr now)) (Some (JStr m))) w"
  have "chain_ok E (objectsDir ?w1) rest"
    using r by (simp add: console_log_def)
  from Cons.IH [OF this]
  have ih: "log_loop E (Some (JStr (tip rest []))) ?w1
            = Some (Inr (), ?w1\<lparr>trace := trace ?w1 @ map log_line rest\<rparr>)" .
  have "log_loop E (Some (JStr d)) w = log_loop E (Some (JStr (tip rest []))) ?w1"
    by (subst log_loop.simps) (simp add: log_step_next [OF d o p])
  with ih x show ?case
    by (simp add: tip_def console_log_def log_line_def)
qed

lemma chain_ok_put:
  assumes "chain_ok E objs hist" and "case objs k of None \<Rightarrow> True | Some c' \<Rightarrow> c' = c"
  shows "chain_ok E (objs(k \<mapsto> c)) hist"
  using assms
proof (induction hist)
  case Nil
  then show ?case by simp
next
  case (Cons x rest)
  then show ?case
    by (cases "fst x = k") auto
qed

lemma chain_ok_suffix: "chain_ok E objs (pre @ suf) \<Longrightarrow> chain_ok E objs suf"
  by (induction pre) simp_all

lemma chain_ok_nonempty: "chain_ok E objs hist \<Longrightarrow> x \<in> set hist \<Longrightarrow> fst x \<noteq> []"
  by (induction hist) auto

lemma chain_ok_head:
  assumes "chain_ok E objs (x # rest)"
  shows "\<exists>index. objs (fst x)
             = Some (JSON_stringify E (commitData (fst (snd x)) (snd (snd x)) index (Some (tip rest []))))
           \<and> JSON_parse E (JSON_stringify E (commitData (fst (snd x)) (snd (snd x)) index (Some (tip rest []))))
             = Some (commitData (fst (snd x)) (snd (snd x)) index (Some (tip rest [])))"
  using assms by simp

text \<open>The digest of a new commit is the digest of no commit of the history: a commit
  with that digest would have the same record, hence the same parent, and the parent
  of the new commit is the newest commit.\<close>

lemma chain_digest_fresh:
  assumes ok: "chain_ok E objs hist" and dist: "distinct (map fst hist)"
    and clash: "case objs D of None \<Rightarrow> True
                 | Some c' \<Rightarrow> c' = JSON_stringify E (commitData now m index (Some (tip hist [])))"
    and rt: "JSON_parse E (JSON_stringify E (commitData now m index (Some (tip hist []))))
             = Some (commitData now m index (Some (tip hist [])))"
  shows "D \<notin> fst ` set hist"
proof
  assume "D \<in> fst ` set hist"
  then obtain x where xin: "x \<in> set hist" and xd: "fst x = D" by auto
  from xin have "\<exists>pre rest. hist = pre @ x # rest"
    by (rule split_list)
  then obtain pre rest where sp: "hist = pre @ x # rest"
    by blast
  have "chain_ok E objs (x # rest)"
    using ok unfolding sp by (rule chain_ok_suffix)
  from chain_ok_head [OF this] xd obtain index' where
    o: "objs D = Some (JSON_stringify E (commitData (fst (snd x)) (snd (snd x)) index' (Some (tip rest []))))"
    and p: "JSON_parse E (JSON_stringify E (commitData (fst (snd x)) (snd (snd x)) index' (Some (tip rest []))))
            = Some (commitData (fst (snd x)) (snd (snd x)) index' (Some (tip rest [])))"
    by blast
  from clash o have "JSON_stringify E (commitData (fst (snd x)) (snd (snd x)) index' (Some (tip rest [])))
      = JSON_stringify E (commitData now m index (Some (tip hist [])))"
    by simp
  with p have "JSON_parse E (JSON_stringify E (commitData now m index (Some (tip hist []))))
      = Some (commitData (fst (snd x)) (snd (snd x)) index' (Some (tip rest [])))"
    by (simp only:)
  with rt have "commitData (fst (snd x)) (snd (snd x)) index' (Some (tip rest []))
      = commitData now m index (Some (tip hist []))"
    by (simp only: option.inject)
  then have eq: "tip rest [] = tip hist []"
    by (rule commitData_parent_inj)
  have "hist \<noteq> []" using xin by auto
  then have "tip hist [] \<in> fst ` set hist" by (rule tip_mem)
  then obtain y where "y \<in> set hist" and "fst y = tip hist []" by auto
  then have "tip hist [] \<noteq> []"
    using chain_ok_nonempty [OF ok] by metis
  with eq have "rest \<noteq> []"
    by (cases rest) (simp_all add: tip_def)
  then have t2: "tip rest [] \<in> fst ` set rest" by (rule tip_mem)
  have t1: "tip hist [] \<in> fst ` set (pre @ [x])"
    unfolding sp by (rule tip_split)
  from dist have "distinct (map fst (pre @ [x]) @ map fst rest)"
    unfolding sp by simp
  then have "set (map fst (pre @ [x])) \<inter> set (map fst rest) = {}"
    by (simp only: distinct_append)
  then have disj: "fst ` set (pre @ [x]) \<inter> fst ` set rest = {}"
    by (simp only: set_map)
  from t1 have "tip rest [] \<in> fst ` set (pre @ [x])"
    by (simp only: eq)
  then have "tip rest [] \<in> fst ` set (pre @ [x]) \<inter> fst ` set rest"
    using t2 by (rule IntI)
  then show False
    by (simp only: disj empty_iff)
qed

lemma add_chain:
  assumes "chain_ok E (objectsDir w) hist" and "add_faithful E p w"
  shows "chain_ok E (objectsDir (snd (add E p w))) hist"
proof (cases "readPath p w")
  case (Inl e)
  with assms(1) show ?thesis
    by (simp add: add_fail)
next
  case (Inr c)
  with assms(2) have "case objectsDir w (hashObject E c) of None \<Rightarrow> True | Some c' \<Rightarrow> c' = c"
    by (simp add: add_faithful_def no_clash_def)
  with assms(1) have "chain_ok E ((objectsDir w)(hashObject E c \<mapsto> c)) hist"
    by (rule chain_ok_put)
  then show ?thesis
    by (simp add: add_objects [OF Inr])
qed

lemma addAll_chain:
  assumes "chain_ok E (objectsDir w) hist" and "addAll_faithful E fs w"
  shows "chain_ok E (objectsDir (snd (addAll E fs w))) hist"
  using assms
proof (induction fs arbitrary: w)
  case Nil
  then show ?case by simp
next
  case (Cons f fs)
  from Cons.prems have 1: "chain_ok E (objectsDir (snd (add E f w))) hist"
    by (simp add: add_chain)
  show ?case
  proof (cases "add E f w")
    case (Pair r w1)
    with 1 have c1: "chain_ok E (objectsDir w1) hist" by simp
    show ?thesis
    proof (cases r)
      case (Inl e)
      with Pair c1 show ?thesis by simp
    next
      case (Inr u)
      with Pair Cons.prems(2) have "addAll_faithful E fs w1" by simp
      with c1 have "chain_ok E (objectsDir (snd (addAll E fs w1))) hist"
        by (rule Cons.IH)
      with Pair Inr show ?thesis by simp
    qed
  qed
qed

lemma commit_inv:
  assumes i: "history_inv E w hist" and f: "commit_faithful E now m w"
  shows "history_inv E (snd (commit E now m w)) (created E (Commit now m) w @ hist)"
proof (cases "commit E now m w")
  case (Pair r w')
  from i have hd: "headFile w = Some (tip hist [])"
    and ok: "chain_ok E (objectsDir w) hist" and dist: "distinct (map fst hist)"
    by (simp_all add: history_inv_def)
  have noop: "init E w = w"
    using hd by (simp add: init_noop)
  show ?thesis
  proof (cases r)
    case (Inl e)
    with Pair have "w' = w" by (simp add: commit_fail)
    with Pair Inl i hd show ?thesis
      by (simp add: noop created_def in_repository_def)
  next
    case (Inr u)
    with Pair have "\<exists>itxt idx. indexFile w = Some itxt \<and> JSON_parse E itxt = Some idx"
      using commit_success by blast
    then obtain itxt idx where ix: "indexFile w = Some itxt" "JSON_parse E itxt = Some idx"
      by blast
    let ?cd = "commitData now m idx (Some (tip hist []))"
    let ?data = "JSON_stringify E ?cd"
    let ?D = "hashObject E ?data"
    have gh: "getCurrentHead w = Some (tip hist [])"
      by (simp add: getCurrentHead_eq hd)
    from f ix gh have clash: "case objectsDir w ?D of None \<Rightarrow> True | Some c' \<Rightarrow> c' = ?data"
      and rt: "JSON_parse E ?data = Some ?cd"
      by (simp_all add: commit_faithful_def no_clash_def)
    have fresh_digest: "?D \<notin> fst ` set hist"
      using ok dist clash rt by (rule chain_digest_fresh)
    have objs: "objectsDir (snd (commit E now m w)) = (objectsDir w)(?D \<mapsto> ?data)"
      by (simp add: commit_ok [OF ix] Let_def gh writeFile_def console_log_def)
    have hd': "headFile (snd (commit E now m w)) = Some ?D"
      by (simp add: commit_ok [OF ix] Let_def gh writeFile_def console_log_def)
    have cr: "created E (Commit now m) w = [(?D, now, m)]"
      using Pair Inr hd' hd by (simp add: created_def noop in_repository_def)
    have ok': "chain_ok E ((objectsDir w)(?D \<mapsto> ?data)) hist"
      using ok clash by (rule chain_ok_put)
    have "chain_ok E ((objectsDir w)(?D \<mapsto> ?data)) ((?D, now, m) # hist)"
      using ok' rt by (auto simp: hashObject_nonempty)
    with fresh_digest dist show ?thesis
      by (simp add: history_inv_def cr objs hd' tip_def)
  qed
qed

lemma inv_same_files:
  assumes "history_inv E w hist" and "same_files w w'"
  shows "history_inv E w' hist"
  using assms by (simp add: history_inv_def same_files_def)

lemma exec_inv:
  assumes i: "history_inv E w hist" and f: "faithful_step E c w"
  shows "history_inv E (snd (exec E c w)) (created E c w @ hist)"
proof -
  from i have hd: "headFile w = Some (tip hist [])"
    and ok: "chain_ok E (objectsDir w) hist" and dist: "distinct (map fst hist)"
    by (simp_all add: history_inv_def)
  have noop: "init E w = w"
    using hd by (simp add: init_noop)
  show ?thesis
  proof (cases c)
    case Init
    with i hd show ?thesis by (simp add: noop created_def)
  next
    case (Add p fs)
    with f ok hd have "chain_ok E (objectsDir (snd (exec E c w))) hist"
      by (simp add: noop in_repository_def add_chain addAll_chain split: if_splits)
    with Add hd dist show ?thesis
      by (simp add: noop in_repository_def history_inv_def created_def add_head addAll_head)
  next
    case (Commit now m)
    with f have "commit_faithful E now m w" by (simp add: noop)
    with i have "history_inv E (snd (commit E now m w)) (created E (Commit now m) w @ hist)"
      by (rule commit_inv)
    with Commit hd show ?thesis by (simp add: noop in_repository_def)
  next
    case (Show x)
    with i hd showCommitDiff_same [of w E x] show ?thesis
      by (simp add: noop in_repository_def created_def inv_same_files)
  next
    case (Status fs)
    with i hd status_same [of w E fs] show ?thesis
      by (simp add: noop in_repository_def created_def inv_same_files)
  next
    case (Stash now)
    with i show ?thesis
      by (simp add: noop in_repository_def created_def history_inv_def stash_frame)
  next
    case (Edit p d)
    with i show ?thesis by (simp add: created_def history_inv_def)
  next
    case (Delete p)
    with i show ?thesis by (simp add: created_def history_inv_def)
  qed
qed

lemma run_inv:
  assumes "history_inv E w hist" and "faithful_run E cmds w"
  shows "history_inv E (run E cmds w) (history E cmds w @ hist)"
  using assms
proof (induction cmds arbitrary: w hist)
  case Nil
  then show ?case by simp
next
  case (Cons c cs)
  from Cons.prems have "history_inv E (snd (exec E c w)) (created E c w @ hist)"
    by (simp add: exec_inv)
  moreover from Cons.prems have "faithful_run E cs (snd (exec E c w))"
    by simp
  ultimately have "history_inv E (run E cs (snd (exec E c w)))
      (history E cs (snd (exec E c w)) @ created E c w @ hist)"
    by (rule Cons.IH)
  then show ?case by simp
qed

text \<open>
  Claim C6. In a repository whose \<^verbatim>\<open>HEAD\<close> was empty before the runs \<open>cmds\<close>, on
  which no digest collided and \<^verbatim>\<open>JSON.parse\<close> read back every commit record written,
  \<^verbatim>\<open>log\<close> returns, without an exception, and has printed one line for each commit of
  the history, from the newest (the one \<^verbatim>\<open>HEAD\<close> names) to the first, by following
  the parents. When \<^verbatim>\<open>HEAD\<close> is empty it returns at once and prints nothing.
\<close>

theorem log_walks_history:
  assumes "headFile w0 = Some []" and "faithful_run E cmds w0"
  shows "log_groot E (run E cmds w0)
           = Some (Inr (), (run E cmds w0)
                     \<lparr>trace := trace (run E cmds w0) @ map log_line (history E cmds w0)\<rparr>)
         \<and> log_groot E w0 = Some (Inr (), w0)"
proof -
  have "history_inv E w0 []"
    using assms(1) by (simp add: history_inv_def tip_def)
  from run_inv [OF this assms(2)]
  have "history_inv E (run E cmds w0) (history E cmds w0)" by simp
  then have hd: "headFile (run E cmds w0) = Some (tip (history E cmds w0) [])"
    and ok: "chain_ok E (objectsDir (run E cmds w0)) (history E cmds w0)"
    by (simp_all add: history_inv_def)
  have 1: "log_groot E (run E cmds w0)
      = Some (Inr (), (run E cmds w0)
                \<lparr>trace := trace (run E cmds w0) @ map log_line (history E cmds w0)\<rparr>)"
    by (simp add: log_groot_def getCurrentHead_eq hd log_loop_chain [OF ok])
  have "log_loop E (Some (JStr [])) w0 = Some (Inr (), w0)"
    by (subst log_loop.simps) (simp add: log_step_done)
  then have 2: "log_groot E w0 = Some (Inr (), w0)"
    by (simp add: log_groot_def getCurrentHead_eq assms(1))
  from 1 2 show ?thesis by (rule conjI)
qed

section \<open>showCommitDiff\<close>

lemma print_diff_trace:
  "print_diff parts w = w\<lparr>trace := trace w @ map (\<lambda>part. Print (part_line part)) parts\<rparr>"
  unfolding print_diff_def
  by (induction parts arbitrary: w) (simp_all add: console_log_def)

lemma js_get_truthy: "js_get (Some v) k = Inr (Some x) \<Longrightarrow> truthy (Some v)"
  by (cases v) simp_all

lemma path_is_entry: "path_is (Some (JStr p)) (index_entry q h) = Inr (q = p)"
  by (simp add: path_is_def index_entry_def)

lemma js_find_entries:
  "js_find (path_is (Some (JStr p))) (map (\<lambda>x. index_entry (fst x) (snd x)) es)
   = Inr (map_option (index_entry p) (map_of es p))"
  by (induction es) (auto simp: path_is_entry)

lemma file_list_map: "file_list es = JArr (map (\<lambda>x. index_entry (fst x) (snd x)) es)"
  by (simp add: file_list_def case_prod_beta)

lemma blobs_stored_mem:
  "blobs_stored objs es \<Longrightarrow> x \<in> set es \<Longrightarrow> snd x \<noteq> [] \<and> objs (snd x) \<noteq> None"
  by (simp add: blobs_stored_def list_all_iff)

lemma getCommitData_found:
  assumes "h \<noteq> []" and "objectsDir w h = Some d"
  shows "getCommitData (Some (JStr h)) w = (Inr (Some d), w)"
  using assms by (simp add: getCommitData_def lookup_file_def)

lemma getFileContent_stored:
  assumes "h \<noteq> []" and "objectsDir w h = Some d"
  shows "getFileContent (Some (JStr h)) w = Inr d"
  using assms by (simp add: getFileContent_def lookup_file_def)

lemma getParentFileContent_entries:
  assumes pf: "js_get (Some pcd) ''files'' = Inr (Some (file_list pes))"
    and bs: "blobs_stored (objectsDir w) pes"
  shows "getParentFileContent pcd (Some (JStr p)) w
         = Inr (case map_of pes p of None \<Rightarrow> None | Some oh \<Rightarrow> objectsDir w oh)"
proof (cases "map_of pes p")
  case None
  with pf show ?thesis
    by (simp add: getParentFileContent_def file_list_map js_find_entries)
next
  case (Some oh)
  then have "(p, oh) \<in> set pes"
    by (rule map_of_SomeD)
  with bs have "snd (p, oh) \<noteq> [] \<and> objectsDir w (snd (p, oh)) \<noteq> None"
    by (rule blobs_stored_mem)
  then obtain old where ne: "oh \<noteq> []" and old: "objectsDir w oh = Some old"
    by auto
  have "js_get (Some (index_entry p oh)) ''hash'' = Inr (Some (JStr oh))"
    by (simp add: index_entry_def)
  moreover have "truthy (Some (index_entry p oh))"
    by (simp add: index_entry_def)
  ultimately show ?thesis
    using pf Some old
    by (simp add: getParentFileContent_def file_list_map js_find_entries
        getFileContent_stored [OF ne old])
qed

text \<open>The body of the loop, on one entry of a commit whose parent is stored.\<close>

lemma show_file_entry:
  assumes pa: "js_get (Some cd) ''parent'' = Inr (Some (JStr ph))" and ne: "ph \<noteq> []"
    and po: "objectsDir w ph = Some ptxt"
    and pp: "JSON_parse E ptxt = Some pcd"
    and pf: "js_get (Some pcd) ''files'' = Inr (Some (file_list pes))"
    and bs: "blobs_stored (objectsDir w) pes"
    and xh: "snd x \<noteq> []" and xc: "objectsDir w (snd x) = Some c"
  shows "show_file E cd (index_entry (fst x) (snd x)) w
         = (Inr (), w\<lparr>trace := trace w @ expected_lines E (objectsDir w) pes x\<rparr>)"
proof -
  let ?w2 = "console_log (Content c) (console_log (FileHeader (Some (JStr (fst x)))) w)"
  have o2: "objectsDir ?w2 = objectsDir w"
    by (simp add: console_log_def)
  have 1: "js_get (Some (index_entry (fst x) (snd x))) ''path'' = Inr (Some (JStr (fst x)))"
    and 2: "js_get (Some (index_entry (fst x) (snd x))) ''hash'' = Inr (Some (JStr (snd x)))"
    by (simp_all add: index_entry_def)
  have 3: "getFileContent (Some (JStr (snd x))) (console_log (FileHeader (Some (JStr (fst x)))) w)
      = Inr c"
    by (simp add: getFileContent_def lookup_file_def console_log_def xh xc)
  have 4: "getCommitData (Some (JStr ph)) ?w2 = (Inr (Some ptxt), ?w2)"
    by (rule getCommitData_found [OF ne]) (simp add: o2 po)
  have 5: "getParentFileContent pcd (Some (JStr (fst x))) ?w2
      = Inr (case map_of pes (fst x) of None \<Rightarrow> None | Some oh \<Rightarrow> objectsDir w oh)"
    using getParentFileContent_entries [OF pf, of ?w2 "fst x"] bs
    by (simp add: o2 cong: option.case_cong)
  have t: "truthy (Some (JStr ph))"
    using ne by simp
  show ?thesis
  proof (cases "map_of pes (fst x)")
    case None
    with 5 have "getParentFileContent pcd (Some (JStr (fst x))) ?w2 = Inr None"
      by simp
    then have "show_file E cd (index_entry (fst x) (snd x)) w
        = (Inr (), console_log NewFiles ?w2)"
      by (simp add: show_file_def Let_def 1 2 3 pa ne 4 parse_nullable_def parse_text_def pp)
    also have "console_log NewFiles ?w2
        = w\<lparr>trace := trace w @ expected_lines E (objectsDir w) pes x\<rparr>"
      using None by (simp add: expected_lines_def xc console_log_def)
    finally show ?thesis .
  next
    case (Some oh)
    then have "(fst x, oh) \<in> set pes"
      by (rule map_of_SomeD)
    with bs have "snd (fst x, oh) \<noteq> [] \<and> objectsDir w (snd (fst x, oh)) \<noteq> None"
      by (rule blobs_stored_mem)
    then obtain old where old: "objectsDir w oh = Some old"
      by auto
    with 5 Some have "getParentFileContent pcd (Some (JStr (fst x))) ?w2 = Inr (Some old)"
      by simp
    then have "show_file E cd (index_entry (fst x) (snd x)) w
        = (Inr (), print_diff (diffLines E old c) (console_log DiffHeader ?w2))"
      by (simp add: show_file_def Let_def 1 2 3 pa ne 4 parse_nullable_def parse_text_def pp)
    also have "print_diff (diffLines E old c) (console_log DiffHeader ?w2)
        = w\<lparr>trace := trace w @ expected_lines E (objectsDir w) pes x\<rparr>"
      using Some old by (simp add: expected_lines_def xc console_log_def print_diff_trace)
    finally show ?thesis .
  qed
qed

lemma show_files_entries:
  assumes pa: "js_get (Some cd) ''parent'' = Inr (Some (JStr ph))" and ne: "ph \<noteq> []"
    and pp: "JSON_parse E ptxt = Some pcd"
    and pf: "js_get (Some pcd) ''files'' = Inr (Some (file_list pes))"
  shows "objectsDir w = objs \<Longrightarrow> objs ph = Some ptxt \<Longrightarrow> blobs_stored objs pes
         \<Longrightarrow> blobs_stored objs es
         \<Longrightarrow> show_files E cd (map (\<lambda>x. index_entry (fst x) (snd x)) es) w
             = (Inr (), w\<lparr>trace := trace w @ concat (map (expected_lines E objs pes) es)\<rparr>)"
proof (induction es arbitrary: w)
  case Nil
  then show ?case by simp
next
  case (Cons x es)
  from Cons.prems(4) have xs: "snd x \<noteq> [] \<and> objs (snd x) \<noteq> None" and rest: "blobs_stored objs es"
    by (simp_all add: blobs_stored_def)
  then obtain c where xh: "snd x \<noteq> []" and xc: "objectsDir w (snd x) = Some c"
    using Cons.prems(1) by auto
  let ?w1 = "w\<lparr>trace := trace w @ expected_lines E (objectsDir w) pes x\<rparr>"
  have po: "objectsDir w ph = Some ptxt" and bs: "blobs_stored (objectsDir w) pes"
    using Cons.prems(1,2,3) by simp_all
  have 1: "show_file E cd (index_entry (fst x) (snd x)) w = (Inr (), ?w1)"
    by (rule show_file_entry [OF pa ne po pp pf bs xh xc])
  have "objectsDir ?w1 = objs"
    using Cons.prems(1) by simp
  from Cons.IH [OF this Cons.prems(2,3) rest]
  have "show_files E cd (map (\<lambda>x. index_entry (fst x) (snd x)) es) ?w1
      = (Inr (), ?w1\<lparr>trace := trace ?w1 @ concat (map (expected_lines E objs pes) es)\<rparr>)" .
  with 1 Cons.prems(1) show ?case
    by simp
qed

lemma part_line_not_new: "part_line part \<noteq> NewFiles"
  by (simp add: part_line_def)

lemma expected_lines_count:
  assumes bs: "blobs_stored objs pes" and xc: "objs (snd x) = Some c"
  shows "length (filter (\<lambda>e. e = Print NewFiles) (expected_lines E objs pes x))
         = (if fst x \<in> fst ` set pes then 0 else 1)"
proof (cases "map_of pes (fst x)")
  case None
  then have "fst x \<notin> fst ` set pes"
    by (simp add: map_of_eq_None_iff)
  with None xc show ?thesis
    by (simp add: expected_lines_def)
next
  case (Some oh)
  then have m: "(fst x, oh) \<in> set pes"
    by (rule map_of_SomeD)
  then have i: "fst x \<in> fst ` set pes"
    by (rule image_eqI [rotated]) simp
  from bs m have "snd (fst x, oh) \<noteq> [] \<and> objs (snd (fst x, oh)) \<noteq> None"
    by (rule blobs_stored_mem)
  then obtain old where old: "objs oh = Some old"
    by auto
  have "filter (\<lambda>e. e = Print NewFiles) (map (\<lambda>part. Print (part_line part)) parts) = []"
    for parts
    by (induction parts) (simp_all add: part_line_not_new)
  with Some old xc i show ?thesis
    by (simp add: expected_lines_def)
qed

lemma new_files_count:
  assumes bs: "blobs_stored objs pes"
  shows "blobs_stored objs es \<Longrightarrow>
         length (filter (\<lambda>e. e = Print NewFiles) (concat (map (expected_lines E objs pes) es)))
         = length (filter (\<lambda>x. fst x \<notin> fst ` set pes) es)"
proof (induction es)
  case Nil
  then show ?case by simp
next
  case (Cons x es)
  from Cons.prems obtain c where xc: "objs (snd x) = Some c" and rest: "blobs_stored objs es"
    by (auto simp: blobs_stored_def)
  from expected_lines_count [OF bs xc, of E] Cons.IH [OF rest] show ?case
    by simp
qed

lemma hunk_lines_parent:
  assumes "Print l \<in> set (expected_lines E objs pes x)" and "hunk_line l"
  shows "fst x \<in> fst ` set pes"
proof (rule ccontr)
  assume "fst x \<notin> fst ` set pes"
  then have "map_of pes (fst x) = None"
    by (simp add: map_of_eq_None_iff)
  with assms show False
    by (auto simp: expected_lines_def split: option.splits)
qed

text \<open>
  Claim C7. \<^verbatim>\<open>showCommitDiff\<close> is called with the digest of a stored commit whose
  parent is a stored commit, both with well-formed file lists whose blobs are in the
  store. It returns normally and has printed, after its first line, the expected
  lines of every entry of the commit, in order. For every entry whose path has no
  entry in the file list of the parent these are the path, the content and the
  new-file line, and nothing else: no diff is computed. The lines of an entry hold a
  line of a diff (the header or a part) only when the file list of the parent has an
  entry of that path. In all, the call prints the new-file line once for each entry
  whose path the parent does not have, and a line of a diff only if the parent has
  the path of some entry.
\<close>

theorem showCommitDiff_new_files:
  assumes hn: "h \<noteq> []" and ho: "objectsDir w h = Some ctxt"
    and hp: "JSON_parse E ctxt = Some cd"
    and hf: "js_get (Some cd) ''files'' = Inr (Some (file_list entries))"
    and pa: "js_get (Some cd) ''parent'' = Inr (Some (JStr ph))" and ne: "ph \<noteq> []"
    and po: "objectsDir w ph = Some ptxt"
    and pp: "JSON_parse E ptxt = Some pcd"
    and pf: "js_get (Some pcd) ''files'' = Inr (Some (file_list parent_entries))"
    and be: "blobs_stored (objectsDir w) entries"
    and bp: "blobs_stored (objectsDir w) parent_entries"
  shows "showCommitDiff E h w
           = (Inr (), w\<lparr>trace := trace w @ Print ChangesInLastCommit
                 # concat (map (expected_lines E (objectsDir w) parent_entries) entries)\<rparr>)
       \<and> (\<forall>x\<in>set entries. \<forall>c.
             objectsDir w (snd x) = Some c \<and> fst x \<notin> fst ` set parent_entries \<longrightarrow>
             expected_lines E (objectsDir w) parent_entries x
             = [Print (FileHeader (Some (JStr (fst x)))), Print (Content c), Print NewFiles])
       \<and> (\<forall>x\<in>set entries.
             (\<exists>l. hunk_line l \<and> Print l \<in> set (expected_lines E (objectsDir w) parent_entries x))
             \<longrightarrow> fst x \<in> fst ` set parent_entries)
       \<and> length (filter (\<lambda>e. e = Print NewFiles) (trace (snd (showCommitDiff E h w))))
           = length (filter (\<lambda>e. e = Print NewFiles) (trace w))
             + length (filter (\<lambda>x. fst x \<notin> fst ` set parent_entries) entries)
       \<and> ((\<exists>l. hunk_line l
               \<and> Print l \<in> set (drop (length (trace w)) (trace (snd (showCommitDiff E h w)))))
            \<longrightarrow> (\<exists>x\<in>set entries. fst x \<in> fst ` set parent_entries))"
proof -
  let ?w1 = "console_log ChangesInLastCommit w"
  have "objectsDir ?w1 = objectsDir w"
    by (simp add: console_log_def)
  from show_files_entries [OF pa ne pp pf this po bp be]
  have "show_files E cd (map (\<lambda>x. index_entry (fst x) (snd x)) entries) ?w1
      = (Inr (), ?w1\<lparr>trace := trace ?w1
           @ concat (map (expected_lines E (objectsDir w) parent_entries) entries)\<rparr>)" .
  moreover have "truthy (Some cd)"
    using hf by (rule js_get_truthy)
  ultimately have run: "showCommitDiff E h w
      = (Inr (), w\<lparr>trace := trace w @ Print ChangesInLastCommit
            # concat (map (expected_lines E (objectsDir w) parent_entries) entries)\<rparr>)"
    by (simp add: showCommitDiff_def getCommitData_found [OF hn ho] parse_nullable_def
        parse_text_def hp Let_def hf file_list_map console_log_def)
  have new: "\<forall>x\<in>set entries. \<forall>c.
      objectsDir w (snd x) = Some c \<and> fst x \<notin> fst ` set parent_entries \<longrightarrow>
      expected_lines E (objectsDir w) parent_entries x
      = [Print (FileHeader (Some (JStr (fst x)))), Print (Content c), Print NewFiles]"
  proof (intro ballI allI impI)
    fix x c
    assume "x \<in> set entries"
      and "objectsDir w (snd x) = Some c \<and> fst x \<notin> fst ` set parent_entries"
    then have "objectsDir w (snd x) = Some c" and "map_of parent_entries (fst x) = None"
      by (simp_all add: map_of_eq_None_iff)
    then show "expected_lines E (objectsDir w) parent_entries x
        = [Print (FileHeader (Some (JStr (fst x)))), Print (Content c), Print NewFiles]"
      by (simp add: expected_lines_def)
  qed
  have hunks: "\<forall>x\<in>set entries.
      (\<exists>l. hunk_line l \<and> Print l \<in> set (expected_lines E (objectsDir w) parent_entries x))
      \<longrightarrow> fst x \<in> fst ` set parent_entries"
    using hunk_lines_parent by blast
  have count: "length (filter (\<lambda>e. e = Print NewFiles) (trace (snd (showCommitDiff E h w))))
      = length (filter (\<lambda>e. e = Print NewFiles) (trace w))
        + length (filter (\<lambda>x. fst x \<notin> fst ` set parent_entries) entries)"
    by (simp add: run new_files_count [OF bp be])
  have only: "(\<exists>l. hunk_line l
        \<and> Print l \<in> set (drop (length (trace w)) (trace (snd (showCommitDiff E h w)))))
      \<longrightarrow> (\<exists>x\<in>set entries. fst x \<in> fst ` set parent_entries)"
  proof
    assume "\<exists>l. hunk_line l
        \<and> Print l \<in> set (drop (length (trace w)) (trace (snd (showCommitDiff E h w))))"
    then obtain l where l: "hunk_line l"
      and "Print l \<in> set (Print ChangesInLastCommit
             # concat (map (expected_lines E (objectsDir w) parent_entries) entries))"
      by (auto simp: run)
    with l have "Print l \<in> set (concat (map (expected_lines E (objectsDir w) parent_entries) entries))"
      by auto
    then obtain x where "x \<in> set entries"
      and "Print l \<in> set (expected_lines E (objectsDir w) parent_entries x)"
      by auto
    with l hunk_lines_parent show "\<exists>x\<in>set entries. fst x \<in> fst ` set parent_entries"
      by blast
  qed
  from run new hunks count only show ?thesis
    by (intro conjI)
qed

section \<open>The example repositories\<close>

lemma sample_env_sel:
  "JSON_stringify sample_env = sample_stringify"
  "JSON_parse sample_env = sample_parse sample_docs"
  "diffLines sample_env = sample_diff"
  "hashObject sample_env c = sample_hash c"
  by (simp_all add: sample_env_def sample_ext_def hashObject_def sample_hash_def)

lemma length_sample_hash: "length (sample_hash c) = 40"
  by (simp add: sample_hash_def length_hex_digits)

lemma sample_hash_nonempty: "sample_hash c \<noteq> []"
  using length_sample_hash [of c] by auto

lemma hex_digit_inj:
  assumes "a < 16" and "b < 16" and "''0123456789abcdef'' ! a = ''0123456789abcdef'' ! b"
  shows "a = b"
proof -
  have "distinct ''0123456789abcdef''" by simp
  moreover have "a < length ''0123456789abcdef''" "b < length ''0123456789abcdef''"
    using assms(1,2) by simp_all
  ultimately show ?thesis
    using assms(3) by (simp only: nth_eq_iff_index_eq)
qed

lemma hex_digits_inj:
  "a < 16 ^ k \<Longrightarrow> b < 16 ^ k \<Longrightarrow> hex_digits k a = hex_digits k b \<Longrightarrow> a = b"
proof (induction k arbitrary: a b)
  case 0
  then show ?case by simp
next
  case (Suc k)
  from Suc.prems have 1: "a div 16 < 16 ^ k" "b div 16 < 16 ^ k"
    by (simp_all add: less_mult_imp_div_less mult.commute)
  from Suc.prems(3) have 2: "hex_digits k (a div 16) = hex_digits k (b div 16)"
    and 3: "''0123456789abcdef'' ! (a mod 16) = ''0123456789abcdef'' ! (b mod 16)"
    by (simp_all add: length_hex_digits)
  from Suc.IH [OF 1 2] have "a div 16 = b div 16" .
  moreover have "a mod 16 = b mod 16"
    by (rule hex_digit_inj [OF _ _ 3]) simp_all
  ultimately show ?case
    by (metis div_mult_mod_eq)
qed

lemma sample_hash_eq:
  assumes "length a < 1000" and "length b < 1000"
  shows "(sample_hash a = sample_hash b) = (length a = length b)"
proof
  assume "sample_hash a = sample_hash b"
  moreover have "unat (of_nat (length a) :: 160 word) = length a"
    "unat (of_nat (length b) :: 160 word) = length b"
    using assms by (simp_all add: unat_of_nat take_bit_nat_eq_self)
  moreover have "length a < 16 ^ 40" "length b < 16 ^ 40"
    using assms by simp_all
  ultimately show "length a = length b"
    using hex_digits_inj [of "length a" 40 "length b"] by (simp add: sample_hash_def)
qed (simp add: sample_hash_def)

lemmas sample_defs = staging_run_def sample_run_def third_run_def sample_parse_def
  sample_docs_def first_record_def second_record_def third_record_def once_staged_def
  twice_staged_def stash_staged_def third_entries_def second_entries_def file_list_def
  commitData_def index_entry_def

lemmas code_defs = init_def commit_def add_def updateStagingArea_def lookup_file_def
  parse_text_def Let_def writeFile_def console_log_def getCurrentHead_eq created_def
  readPath_def classify_def through_file_def in_repository_def working_path_def

lemmas sample_simps = sample_env_sel length_sample_hash sample_hash_eq sample_hash_nonempty

lemma fresh_sample:
  "fresh sample_env files =
   \<lparr>objectsDir = Map.empty, headFile = Some [], indexFile = Some ''[]'', stashFile = Some ''[]'',
    workTree = map_of (map (\<lambda>(p, c). (p, File c)) files),
    trace = [Write HeadFile [], Write IndexFile ''[]'', Write StashFile ''[]'']\<rparr>"
  by (simp add: fresh_def blank_def init_def Let_def writeFile_def sample_env_sel)

lemma parse_docs:
  "JSON_parse sample_env ''null'' = Some JNull"
  "JSON_parse sample_env ''[]'' = Some (JArr [])"
  "JSON_parse sample_env (sample_stringify twice_staged) = Some twice_staged"
  "JSON_parse sample_env (sample_stringify first_record) = Some first_record"
  "JSON_parse sample_env (sample_stringify second_record) = Some second_record"
  "JSON_parse sample_env (sample_stringify third_record) = Some third_record"
  "JSON_parse sample_env (sample_stringify stash_staged) = Some stash_staged"
  by (simp_all add: sample_env_sel sample_defs)

lemma staged_files:
  "headFile staged = Some (sample_hash (sample_stringify first_record))"
  "indexFile staged = Some (sample_stringify twice_staged)"
  "stashFile staged = Some ''[]''"
  "workTree staged ''a.txt'' = Some (File ''hello world'')"
  "workTree staged ''b.txt'' = Some (File ''hello world'')"
  by (simp_all add: staged_def fresh_sample sample_defs code_defs sample_simps)

lemma staged_history:
  "history sample_env staging_run (fresh sample_env [])
   = [(sample_hash (sample_stringify first_record), ''t1'', ''first'')]"
  by (simp add: fresh_sample sample_defs code_defs sample_simps)

lemma committed_files:
  "objectsDir committed (sample_hash ''hello'') = Some ''hello''"
  "objectsDir committed (sample_hash ''hello world'') = Some ''hello world''"
  "objectsDir committed (sample_hash (sample_stringify first_record))
   = Some (sample_stringify first_record)"
  "objectsDir committed (sample_hash (sample_stringify second_record))
   = Some (sample_stringify second_record)"
  "headFile committed = Some (sample_hash (sample_stringify second_record))"
  by (simp_all add: committed_def fresh_sample sample_defs code_defs sample_simps)

lemma finished_files:
  "objectsDir finished (sample_hash ''hello'') = Some ''hello''"
  "objectsDir finished (sample_hash ''hello world'') = Some ''hello world''"
  "objectsDir finished (sample_hash ''hello, world'') = Some ''hello, world''"
  "objectsDir finished (sample_hash (sample_stringify second_record))
   = Some (sample_stringify second_record)"
  "objectsDir finished (sample_hash (sample_stringify third_record))
   = Some (sample_stringify third_record)"
  "headFile finished = Some (sample_hash (sample_stringify third_record))"
  by (simp_all add: finished_def fresh_sample sample_defs code_defs sample_simps)

lemma sample_faithful: "faithful_run sample_env sample_run (fresh sample_env [])"
  by (simp add: fresh_sample sample_defs code_defs commit_faithful_def add_faithful_def
      no_clash_def sample_simps)

lemma sample_history:
  "history sample_env sample_run (fresh sample_env [])
   = [(sample_hash (sample_stringify second_record), ''t2'', ''second''),
      (sample_hash (sample_stringify first_record), ''t1'', ''first'')]"
  by (simp add: fresh_sample sample_defs code_defs sample_simps)

text \<open>
  The files under \<^verbatim>\<open>.groot\<close> are files like the others: \<^verbatim>\<open>add\<close> reads them from the
  repository. On a new repository, \<^verbatim>\<open>add .groot/stash\<close> stores the text \<^verbatim>\<open>[]\<close> and
  rewrites the index, and \<^verbatim>\<open>add .groot/index\<close> then stores the rewritten index,
  a second object.
\<close>

lemma add_index_after_stash:
  "readPath ''.groot/stash'' (fresh sample_env []) = Inr ''[]''
   \<and> readPath ''.groot/index'' (fresh sample_env []) = Inr ''[]''
   \<and> readPath ''.groot/index'' (snd (add sample_env ''.groot/stash'' (fresh sample_env [])))
       = Inr (sample_stringify stash_staged)
   \<and> dom (objectsDir (snd (add sample_env ''.groot/index''
             (snd (add sample_env ''.groot/stash'' (fresh sample_env []))))))
       = {sample_hash ''[]'', sample_hash (sample_stringify stash_staged)}
   \<and> sample_hash ''[]'' \<noteq> sample_hash (sample_stringify stash_staged)"
  by (simp add: fresh_sample sample_defs code_defs sample_simps insert_commute)

section \<open>The claims on the example repositories\<close>

text \<open>The commit of the twice staged file, on the repository of the example.\<close>

theorem commit_snapshot_witness:
  "indexFile staged = Some (sample_stringify twice_staged)
   \<and> JSON_parse sample_env (sample_stringify twice_staged) = Some twice_staged
   \<and> JSON_parse sample_env (JSON_stringify sample_env
          (commitData ''t2'' ''second'' twice_staged (getCurrentHead staged)))
       = Some (commitData ''t2'' ''second'' twice_staged (getCurrentHead staged))
   \<and> (let cd = commitData ''t2'' ''second'' twice_staged (getCurrentHead staged);
           data = JSON_stringify sample_env cd;
           d = hashObject sample_env data;
           w' = snd (commit sample_env ''t2'' ''second'' staged)
       in fst (commit sample_env ''t2'' ''second'' staged) = Inr ()
        \<and> js_get (Some cd) ''files'' = Inr (Some twice_staged)
        \<and> objectsDir w' d = Some data
        \<and> getCommitData (Some (JStr d)) w' = (Inr (Some data), w')
        \<and> (JSON_parse sample_env data = Some cd \<longrightarrow> parse_nullable sample_env (Some data) = Inr cd)
        \<and> indexFile w' = Some (JSON_stringify sample_env (JArr []))
        \<and> headFile w' = Some d
        \<and> trace w' = trace staged @
             [Write (ObjectFile d) data, Write HeadFile d,
              Write IndexFile (JSON_stringify sample_env (JArr [])), Print (CommitCreated d)])"
proof -
  have h1: "indexFile staged = Some (sample_stringify twice_staged)"
    by (rule staged_files)
  have h2: "JSON_parse sample_env (sample_stringify twice_staged) = Some twice_staged"
    by (rule parse_docs)
  have "commitData ''t2'' ''second'' twice_staged (getCurrentHead staged) = second_record"
    by (simp add: getCurrentHead_eq staged_files second_record_def)
  then have h3: "JSON_parse sample_env (JSON_stringify sample_env
          (commitData ''t2'' ''second'' twice_staged (getCurrentHead staged)))
       = Some (commitData ''t2'' ''second'' twice_staged (getCurrentHead staged))"
    by (simp add: sample_env_sel(1) parse_docs)
  from h1 h2 h3 commit_snapshot [OF h1 h2, of "''t2''" "''second''"] show ?thesis
    by (intro conjI)
qed

text \<open>The first commit of the example, on an index that is empty.\<close>

theorem commit_empty_index_witness:
  "indexFile (fresh sample_env []) = Some ''[]''
   \<and> JSON_parse sample_env ''[]'' = Some (JArr [])
   \<and> (let cd = commitData ''t1'' ''first'' (JArr []) (getCurrentHead (fresh sample_env []));
           d = hashObject sample_env (JSON_stringify sample_env cd);
           w' = snd (commit sample_env ''t1'' ''first'' (fresh sample_env []))
       in fst (commit sample_env ''t1'' ''first'' (fresh sample_env [])) = Inr ()
        \<and> js_get (Some cd) ''files'' = Inr (Some (JArr []))
        \<and> objectsDir w' d = Some (JSON_stringify sample_env cd)
        \<and> headFile w' = Some d)"
proof -
  have h1: "indexFile (fresh sample_env []) = Some ''[]''"
    by (simp add: fresh_sample)
  have h2: "JSON_parse sample_env ''[]'' = Some (JArr [])"
    by (rule parse_docs)
  from h1 h2 commit_empty_index [OF h1 h2, of "''t1''" "''first''"] show ?thesis
    by (intro conjI)
qed

text \<open>The stash of the twice staged file.\<close>

theorem stash_appends_and_clears_witness:
  "indexFile staged = Some (sample_stringify twice_staged)
   \<and> JSON_parse sample_env (sample_stringify twice_staged) = Some twice_staged
   \<and> stashFile staged = Some ''[]''
   \<and> JSON_parse sample_env ''[]'' = Some (JArr [])
   \<and> (let w' = snd (stash sample_env ''t2'' staged)
       in fst (stash sample_env ''t2'' staged) = Inr ()
        \<and> stashFile w'
            = Some (JSON_stringify sample_env (JArr ([] @ [stash_entry ''t2'' twice_staged])))
        \<and> js_get (Some (stash_entry ''t2'' twice_staged)) ''files'' = Inr (Some twice_staged)
        \<and> js_get (Some (stash_entry ''t2'' twice_staged)) ''timeStamp'' = Inr (Some (JStr ''t2''))
        \<and> indexFile w' = Some (JSON_stringify sample_env (JArr []))
        \<and> headFile w' = headFile staged
        \<and> objectsDir w' = objectsDir staged
        \<and> workTree w' = workTree staged
        \<and> trace w' = trace staged @
             [Write StashFile (JSON_stringify sample_env (JArr ([] @ [stash_entry ''t2'' twice_staged]))),
              Write IndexFile (JSON_stringify sample_env (JArr [])), Print Stashed])"
proof -
  have h1: "indexFile staged = Some (sample_stringify twice_staged)"
    by (rule staged_files)
  have h2: "JSON_parse sample_env (sample_stringify twice_staged) = Some twice_staged"
    by (rule parse_docs)
  have h3: "stashFile staged = Some ''[]''"
    by (rule staged_files)
  have h4: "JSON_parse sample_env ''[]'' = Some (JArr [])"
    by (rule parse_docs)
  from h1 h2 h3 h4 stash_appends_and_clears [OF h1 h2 h3 h4, of "''t2''"] show ?thesis
    by (intro conjI)
qed

text \<open>The two files of the example that hold the same text.\<close>

theorem same_content_one_object_witness:
  "readPath ''a.txt'' staged = Inr ''hello world''
   \<and> readPath ''b.txt'' (snd (add sample_env ''a.txt'' staged)) = Inr ''hello world''
   \<and> (let w1 = snd (add sample_env ''a.txt'' staged); w2 = snd (add sample_env ''b.txt'' w1)
       in objectsDir w1 = (objectsDir staged)(hashObject sample_env ''hello world'' \<mapsto> ''hello world'')
        \<and> objectsDir w2 = (objectsDir staged)(hashObject sample_env ''hello world'' \<mapsto> ''hello world'')
        \<and> getFileContent (Some (JStr (hashObject sample_env ''hello world''))) w1 = Inr ''hello world''
        \<and> getFileContent (Some (JStr (hashObject sample_env ''hello world''))) w2 = Inr ''hello world''
        \<and> dom (objectsDir w2) = insert (hashObject sample_env ''hello world'') (dom (objectsDir staged))
        \<and> (\<exists>evs. trace w1 = trace staged
              @ Write (ObjectFile (hashObject sample_env ''hello world'')) ''hello world'' # evs)
        \<and> (\<exists>evs. trace w2 = trace w1
              @ Write (ObjectFile (hashObject sample_env ''hello world'')) ''hello world'' # evs))"
proof -
  have h1: "readPath ''a.txt'' staged = Inr ''hello world''"
    by (simp add: readPath_def classify_def staged_files)
  have "workTree (snd (add sample_env ''a.txt'' staged)) ''b.txt'' = Some (File ''hello world'')"
    by (simp add: add_workTree staged_files)
  then have h2: "readPath ''b.txt'' (snd (add sample_env ''a.txt'' staged)) = Inr ''hello world''"
    by (simp add: readPath_def classify_def)
  from h1 h2 same_content_one_object [OF h1 h2] show ?thesis
    by (intro conjI)
qed

text \<open>
  The third commit of the example shown. Its parent, the second commit, has two
  entries of \<^verbatim>\<open>a.txt\<close> and none of \<^verbatim>\<open>b.txt\<close>: a diff is printed for \<^verbatim>\<open>a.txt\<close> and
  the new-file line for \<^verbatim>\<open>b.txt\<close>.
\<close>

theorem showCommitDiff_new_files_witness:
  "sample_hash (sample_stringify third_record) \<noteq> []
   \<and> objectsDir finished (sample_hash (sample_stringify third_record))
       = Some (sample_stringify third_record)
   \<and> JSON_parse sample_env (sample_stringify third_record) = Some third_record
   \<and> js_get (Some third_record) ''files'' = Inr (Some (file_list third_entries))
   \<and> js_get (Some third_record) ''parent''
       = Inr (Some (JStr (sample_hash (sample_stringify second_record))))
   \<and> sample_hash (sample_stringify second_record) \<noteq> []
   \<and> objectsDir finished (sample_hash (sample_stringify second_record))
       = Some (sample_stringify second_record)
   \<and> JSON_parse sample_env (sample_stringify second_record) = Some second_record
   \<and> js_get (Some second_record) ''files'' = Inr (Some (file_list second_entries))
   \<and> blobs_stored (objectsDir finished) third_entries
   \<and> blobs_stored (objectsDir finished) second_entries
   \<and> showCommitDiff sample_env (sample_hash (sample_stringify third_record)) finished
       = (Inr (), finished\<lparr>trace := trace finished @
            [Print ChangesInLastCommit,
             Print (FileHeader (Some (JStr ''a.txt''))), Print (Content ''hello, world''),
             Print DiffHeader, Print (Removed ''hello''), Print (Added ''hello, world''),
             Print (FileHeader (Some (JStr ''b.txt''))), Print (Content ''hello world''),
             Print NewFiles]\<rparr>)
   \<and> (''b.txt'', sample_hash ''hello world'') \<in> set third_entries
   \<and> ''b.txt'' \<notin> fst ` set second_entries
   \<and> expected_lines sample_env (objectsDir finished) second_entries
         (''b.txt'', sample_hash ''hello world'')
       = [Print (FileHeader (Some (JStr ''b.txt''))), Print (Content ''hello world''),
          Print NewFiles]
   \<and> (''a.txt'', sample_hash ''hello, world'') \<in> set third_entries
   \<and> Print DiffHeader \<in> set (expected_lines sample_env (objectsDir finished) second_entries
         (''a.txt'', sample_hash ''hello, world''))
   \<and> ''a.txt'' \<in> fst ` set second_entries
   \<and> length (filter (\<lambda>e. e = Print NewFiles)
         (trace (snd (showCommitDiff sample_env (sample_hash (sample_stringify third_record))
                        finished))))
       = length (filter (\<lambda>e. e = Print NewFiles) (trace finished)) + 1"
proof -
  have h1: "sample_hash (sample_stringify third_record) \<noteq> []"
    by (rule sample_hash_nonempty)
  have h2: "objectsDir finished (sample_hash (sample_stringify third_record))
      = Some (sample_stringify third_record)"
    by (rule finished_files)
  have h3: "JSON_parse sample_env (sample_stringify third_record) = Some third_record"
    by (rule parse_docs)
  have h4: "js_get (Some third_record) ''files'' = Inr (Some (file_list third_entries))"
    by (simp add: third_record_def commitData_fields)
  have h5: "js_get (Some third_record) ''parent''
      = Inr (Some (JStr (sample_hash (sample_stringify second_record))))"
    by (simp add: third_record_def commitData_fields)
  have h6: "sample_hash (sample_stringify second_record) \<noteq> []"
    by (rule sample_hash_nonempty)
  have h7: "objectsDir finished (sample_hash (sample_stringify second_record))
      = Some (sample_stringify second_record)"
    by (rule finished_files)
  have h8: "JSON_parse sample_env (sample_stringify second_record) = Some second_record"
    by (rule parse_docs)
  have h9: "js_get (Some second_record) ''files'' = Inr (Some (file_list second_entries))"
    by (simp add: second_record_def commitData_fields twice_staged_def file_list_def
        second_entries_def)
  have h10: "blobs_stored (objectsDir finished) third_entries"
    by (simp add: blobs_stored_def third_entries_def finished_files sample_hash_nonempty)
  have h11: "blobs_stored (objectsDir finished) second_entries"
    by (simp add: blobs_stored_def second_entries_def finished_files sample_hash_nonempty)
  note claim = showCommitDiff_new_files [OF h1 h2 h3 h4 h5 h6 h7 h8 h9 h10 h11]
  have b: "(''b.txt'', sample_hash ''hello world'') \<in> set third_entries"
    and a: "(''a.txt'', sample_hash ''hello, world'') \<in> set third_entries"
    by (simp_all add: third_entries_def)
  have nb: "''b.txt'' \<notin> fst ` set second_entries"
    by (simp add: second_entries_def)
  have lines: "concat (map (expected_lines sample_env (objectsDir finished) second_entries)
        third_entries)
      = [Print (FileHeader (Some (JStr ''a.txt''))), Print (Content ''hello, world''),
         Print DiffHeader, Print (Removed ''hello''), Print (Added ''hello, world''),
         Print (FileHeader (Some (JStr ''b.txt''))), Print (Content ''hello world''),
         Print NewFiles]"
    by (simp add: expected_lines_def third_entries_def second_entries_def finished_files
        sample_env_sel sample_diff_def part_line_def)
  from claim [THEN conjunct1]
  have c1: "showCommitDiff sample_env (sample_hash (sample_stringify third_record)) finished
       = (Inr (), finished\<lparr>trace := trace finished @
            [Print ChangesInLastCommit,
             Print (FileHeader (Some (JStr ''a.txt''))), Print (Content ''hello, world''),
             Print DiffHeader, Print (Removed ''hello''), Print (Added ''hello, world''),
             Print (FileHeader (Some (JStr ''b.txt''))), Print (Content ''hello world''),
             Print NewFiles]\<rparr>)"
    by (simp only: lines)
  from claim [THEN conjunct2, THEN conjunct1, THEN bspec, OF b, THEN spec, of "''hello world''"]
  have c2: "expected_lines sample_env (objectsDir finished) second_entries
         (''b.txt'', sample_hash ''hello world'')
       = [Print (FileHeader (Some (JStr ''b.txt''))), Print (Content ''hello world''),
          Print NewFiles]"
    using nb by (simp add: finished_files)
  have d: "Print DiffHeader \<in> set (expected_lines sample_env (objectsDir finished) second_entries
         (''a.txt'', sample_hash ''hello, world''))"
    by (simp add: expected_lines_def second_entries_def finished_files)
  from claim [THEN conjunct2, THEN conjunct2, THEN conjunct1, THEN bspec, OF a] d
  have c3: "''a.txt'' \<in> fst ` set second_entries"
    using hunk_line.simps(1) by (simp only: fst_conv) blast
  from claim [THEN conjunct2, THEN conjunct2, THEN conjunct2, THEN conjunct1]
  have c4: "length (filter (\<lambda>e. e = Print NewFiles)
         (trace (snd (showCommitDiff sample_env (sample_hash (sample_stringify third_record))
                        finished))))
       = length (filter (\<lambda>e. e = Print NewFiles) (trace finished)) + 1"
    by (simp add: third_entries_def second_entries_def)
  from h1 h2 h3 h4 h5 h6 h7 h8 h9 h10 h11 c1 b nb c2 a d c3 c4 show ?thesis
    by (intro conjI)
qed

text \<open>
  Claim C3 as it is written fails on the first commit of the example: it is made
  while \<^verbatim>\<open>HEAD\<close> is empty and no commit exists, and the record that it stores has
  the empty text as its \<^verbatim>\<open>parent\<close>, not \<^verbatim>\<open>null\<close>.
\<close>

theorem first_commit_parent_not_null:
  "history sample_env [] (fresh sample_env []) = []
   \<and> getCurrentHead (fresh sample_env []) = Some []
   \<and> fst (commit sample_env ''t1'' ''first'' (fresh sample_env [])) = Inr ()
   \<and> headFile (snd (commit sample_env ''t1'' ''first'' (fresh sample_env [])))
       = Some (sample_hash (sample_stringify first_record))
   \<and> objectsDir (snd (commit sample_env ''t1'' ''first'' (fresh sample_env [])))
        (sample_hash (sample_stringify first_record))
       = Some (sample_stringify first_record)
   \<and> JSON_parse sample_env (sample_stringify first_record) = Some first_record
   \<and> js_get (Some first_record) ''parent'' = Inr (Some (JStr []))
   \<and> js_get (Some first_record) ''parent'' \<noteq> Inr (Some JNull)"
proof -
  have i1: "indexFile (fresh sample_env []) = Some ''[]''"
    by (simp add: fresh_sample)
  have i2: "JSON_parse sample_env ''[]'' = Some (JArr [])"
    by (rule parse_docs)
  have cd: "commitData ''t1'' ''first'' (JArr []) (getCurrentHead (fresh sample_env [])) = first_record"
    by (simp add: getCurrentHead_eq fresh_sample first_record_def)
  have 1: "commit sample_env ''t1'' ''first'' (fresh sample_env [])
      = (Inr (), console_log (CommitCreated (sample_hash (sample_stringify first_record)))
          (writeFile IndexFile (sample_stringify (JArr []))
            (writeFile HeadFile (sample_hash (sample_stringify first_record))
              (writeFile (ObjectFile (sample_hash (sample_stringify first_record)))
                 (sample_stringify first_record) (fresh sample_env [])))))"
    using commit_ok [OF i1 i2, of "''t1''" "''first''"]
    by (simp only: cd Let_def sample_env_sel)
  have 2: "js_get (Some first_record) ''parent'' = Inr (Some (JStr []))"
    by (simp add: first_record_def commitData_fields)
  have 3: "fst (commit sample_env ''t1'' ''first'' (fresh sample_env [])) = Inr ()"
    by (simp only: 1 fst_conv)
  have 4: "headFile (snd (commit sample_env ''t1'' ''first'' (fresh sample_env [])))
      = Some (sample_hash (sample_stringify first_record))"
    by (simp add: 1 writeFile_def console_log_def del: sample_stringify.simps)
  have 5: "objectsDir (snd (commit sample_env ''t1'' ''first'' (fresh sample_env [])))
        (sample_hash (sample_stringify first_record))
      = Some (sample_stringify first_record)"
    by (simp add: 1 writeFile_def console_log_def del: sample_stringify.simps)
  have 6: "history sample_env [] (fresh sample_env []) = []"
    by simp
  have 7: "getCurrentHead (fresh sample_env []) = Some []"
    by (simp add: getCurrentHead_eq fresh_sample)
  have 8: "JSON_parse sample_env (sample_stringify first_record) = Some first_record"
    by (rule parse_docs)
  have 9: "js_get (Some first_record) ''parent'' \<noteq> Inr (Some JNull)"
    by (simp add: 2)
  from 6 7 3 4 5 8 2 9 show ?thesis
    by (intro conjI)
qed

text \<open>The second commit of the example: its parent is the digest of the first.\<close>

theorem commit_parent_witness:
  "headFile (fresh sample_env []) = Some []
   \<and> indexFile (run sample_env staging_run (fresh sample_env [])) = Some (sample_stringify twice_staged)
   \<and> JSON_parse sample_env (sample_stringify twice_staged) = Some twice_staged
   \<and> history sample_env staging_run (fresh sample_env [])
       = [(sample_hash (sample_stringify first_record), ''t1'', ''first'')]
   \<and> (let w = run sample_env staging_run (fresh sample_env []);
           h = tip (history sample_env staging_run (fresh sample_env [])) [];
           cd = commitData ''t2'' ''second'' twice_staged (Some h);
           w' = snd (commit sample_env ''t2'' ''second'' w)
       in fst (commit sample_env ''t2'' ''second'' w) = Inr ()
        \<and> getCurrentHead w = Some h
        \<and> objectsDir w' (hashObject sample_env (JSON_stringify sample_env cd))
            = Some (JSON_stringify sample_env cd)
        \<and> headFile w' = Some (hashObject sample_env (JSON_stringify sample_env cd))
        \<and> js_get (Some cd) ''parent'' = Inr (Some (JStr h))
        \<and> (h = [] \<longleftrightarrow> history sample_env staging_run (fresh sample_env []) = []))"
proof -
  have h1: "headFile (fresh sample_env []) = Some []"
    by (simp add: fresh_sample)
  have h2: "indexFile (run sample_env staging_run (fresh sample_env []))
      = Some (sample_stringify twice_staged)"
    using staged_files(2) by (simp only: staged_def)
  have h3: "JSON_parse sample_env (sample_stringify twice_staged) = Some twice_staged"
    by (rule parse_docs)
  from h1 h2 h3 staged_history commit_parent [OF h1 h2 h3, of "''t2''" "''second''"]
  show ?thesis
    by (intro conjI)
qed

text \<open>The history of the example, with its two commits, and its log.\<close>

theorem log_walks_history_witness:
  "headFile (fresh sample_env []) = Some []
   \<and> faithful_run sample_env sample_run (fresh sample_env [])
   \<and> history sample_env sample_run (fresh sample_env [])
       = [(sample_hash (sample_stringify second_record), ''t2'', ''second''),
          (sample_hash (sample_stringify first_record), ''t1'', ''first'')]
   \<and> log_groot sample_env (run sample_env sample_run (fresh sample_env []))
       = Some (Inr (), (run sample_env sample_run (fresh sample_env []))
                \<lparr>trace := trace (run sample_env sample_run (fresh sample_env []))
                   @ map log_line (history sample_env sample_run (fresh sample_env []))\<rparr>)
   \<and> log_groot sample_env (fresh sample_env []) = Some (Inr (), fresh sample_env [])"
proof -
  have h1: "headFile (fresh sample_env []) = Some []"
    by (simp add: fresh_sample)
  from log_walks_history [OF h1 sample_faithful]
  have c1: "log_groot sample_env (run sample_env sample_run (fresh sample_env []))
       = Some (Inr (), (run sample_env sample_run (fresh sample_env []))
                \<lparr>trace := trace (run sample_env sample_run (fresh sample_env []))
                   @ map log_line (history sample_env sample_run (fresh sample_env []))\<rparr>)"
    and c2: "log_groot sample_env (fresh sample_env []) = Some (Inr (), fresh sample_env [])"
    by blast+
  from h1 sample_faithful sample_history c1 c2 show ?thesis
    by (intro conjI)
qed

text \<open>
  Claim C2 fails on the code. In a repository without a commit and with nothing
  staged, \<^verbatim>\<open>status\<close> prints the file \<^verbatim>\<open>a.txt\<close> of the working tree twice: as
  modified under the changes not staged, because \<^verbatim>\<open>headFiles[file]\<close> is
  \<^verbatim>\<open>undefined\<close> and so differs from the digest of the file, and as a new file under
  the untracked files. (The list of \<^verbatim>\<open>getAllFiles\<close> also holds the three files
  under \<^verbatim>\<open>.groot\<close>, which no rule ignores; they are printed twice as well.)
\<close>

theorem status_untracked_also_modified:
  "status sample_env [''.groot/HEAD'', ''.groot/index'', ''.groot/stash'', ''a.txt'']
     (fresh sample_env [(''a.txt'', ''hello'')])
   = (Inr (),
      (fresh sample_env [(''a.txt'', ''hello'')])
        \<lparr>trace :=
           trace (fresh sample_env [(''a.txt'', ''hello'')]) @
           [Print ToBeCommitted,
            Print NotStaged,
            Print (Modified ''.groot/HEAD''), Print (Modified ''.groot/index''),
            Print (Modified ''.groot/stash''), Print (Modified ''a.txt''),
            Print UntrackedHeader,
            Print (NewFile ''.groot/HEAD''), Print (NewFile ''.groot/index''),
            Print (NewFile ''.groot/stash''), Print (NewFile ''a.txt'')]\<rparr>)"
  by (simp add: status_def status_report_def head_commit_data_def fresh_sample lookup_file_def
      parse_text_def parse_docs getCurrentHead_eq console_log_def Let_def readPath_def
      classify_def through_file_def assign_def plain_object_def prototype_names_def)

text \<open>
  Claim C4 fails on the code. The second commit of the example has two entries for
  \<^verbatim>\<open>a.txt\<close>, from the two calls of \<^verbatim>\<open>add\<close>. \<^verbatim>\<open>getParentFileContent\<close> returns the
  content of the first entry (\<^verbatim>\<open>find\<close> stops at the first match), not of the last;
  the \<^verbatim>\<open>reduce\<close> of \<^verbatim>\<open>status\<close> keeps the last entry for the same list.
\<close>

theorem getParentFileContent_first_entry:
  "indexFile staged = Some (sample_stringify twice_staged)
   \<and> js_get (Some second_record) ''files''
       = Inr (Some (JArr [index_entry ''a.txt'' (sample_hash ''hello''),
                          index_entry ''a.txt'' (sample_hash ''hello world'')]))
   \<and> getFileContent (Some (JStr (sample_hash ''hello''))) committed = Inr ''hello''
   \<and> getFileContent (Some (JStr (sample_hash ''hello world''))) committed = Inr ''hello world''
   \<and> getParentFileContent second_record (Some (JStr ''a.txt'')) committed = Inr (Some ''hello'')
   \<and> (case head_files sample_env
              [index_entry ''a.txt'' (sample_hash ''hello''),
               index_entry ''a.txt'' (sample_hash ''hello world'')] plain_object of
         Inl e \<Rightarrow> Own None
       | Inr headFiles \<Rightarrow> headFiles ''a.txt'')
       = Own (Some (JStr (sample_hash ''hello world'')))"
proof -
  have f: "js_get (Some second_record) ''files''
      = Inr (Some (JArr [index_entry ''a.txt'' (sample_hash ''hello''),
                         index_entry ''a.txt'' (sample_hash ''hello world'')]))"
    by (simp add: second_record_def twice_staged_def commitData_fields)
  show ?thesis
    by (simp add: f staged_files getParentFileContent_def path_is_def index_entry_def
        getFileContent_def lookup_file_def committed_files sample_hash_nonempty assign_def)
qed

text \<open>
  Claim C8 fails on the code for \<^verbatim>\<open>log\<close>. When \<^verbatim>\<open>HEAD\<close> names a digest without an
  object, \<^verbatim>\<open>log\<close> reads the object with \<^verbatim>\<open>fs.readFile\<close> outside any \<^verbatim>\<open>try\<close>: the
  exception leaves the method and nothing is printed. \<^verbatim>\<open>showCommitDiff\<close> of the same
  digest goes through \<^verbatim>\<open>getCommitData\<close>, which catches the exception: it prints two
  lines and returns. Neither writes a file.
\<close>

theorem log_missing_object_throws:
  "objectsDir dangling (sample_hash ''gone'') = None
   \<and> headFile dangling = Some (sample_hash ''gone'')
   \<and> log_groot sample_env dangling = Some (Inl ENOENT, dangling)
   \<and> showCommitDiff sample_env (sample_hash ''gone'') dangling
       = (Inr (), dangling\<lparr>trace := trace dangling @ [Print Undefined, Print CommitNotFound]\<rparr>)"
proof -
  have "log_step sample_env (Some (JStr (sample_hash ''gone''))) dangling = Inl (Inl ENOENT, dangling)"
    by (simp add: log_step_def dangling_def fresh_sample lookup_file_def sample_hash_nonempty)
  then have "log_loop sample_env (Some (JStr (sample_hash ''gone''))) dangling
      = Some (Inl ENOENT, dangling)"
    by (subst log_loop.simps) simp
  then have 1: "log_groot sample_env dangling = Some (Inl ENOENT, dangling)"
    by (simp add: log_groot_def getCurrentHead_eq dangling_def fresh_sample)
  have 2: "showCommitDiff sample_env (sample_hash ''gone'') dangling
       = (Inr (), dangling\<lparr>trace := trace dangling @ [Print Undefined, Print CommitNotFound]\<rparr>)"
    by (simp add: showCommitDiff_def getCommitData_def dangling_def fresh_sample lookup_file_def
        sample_hash_nonempty parse_nullable_def parse_text_def parse_docs console_log_def)
  show ?thesis
    using 1 2 by (simp add: dangling_def fresh_sample)
qed



end
